theory Spec2Isabelle
  imports Main "HOL-Library.AList" "HOL-Library.Sublist"
begin

section \<open>The language-model registry of \<^verbatim>\<open>src/lib/ai/models.ts\<close>\<close>

text \<open>
  The module keeps its state in module-level variables: the catalog \<^verbatim>\<open>allModels\<close>
  (a plain object of plain objects), the metadata store \<^verbatim>\<open>modelMetadata\<close> (a
  \<^verbatim>\<open>Map\<close> keyed by the string \<^verbatim>\<open>provider::name\<close>), the reverse index
  \<^verbatim>\<open>modelInstanceLookup\<close>, the credential overrides \<^verbatim>\<open>providerHasExplicitKey\<close>
  and the two refresh variables \<^verbatim>\<open>lastRefreshAt\<close> and \<^verbatim>\<open>currentRefresh\<close>.
  They are modelled as one record that every operation takes and returns.

  Objects and \<^verbatim>\<open>Map\<close>s are association lists in insertion order, written with
  \<open>AList.update\<close> (replace in place, else append) and \<open>AList.delete\<close>, read with
  \<open>map_of\<close>. For a \<^verbatim>\<open>Map\<close> this is what the program does. For the plain
  objects \<^verbatim>\<open>allModels\<close>, its buckets and \<^verbatim>\<open>providerFactories\<close> it is what
  the program does on ordinary keys only:
  \<^item> reading \<^verbatim>\<open>o[k]\<close> also finds what a plain object inherits
    (\<^verbatim>\<open>constructor\<close>, \<^verbatim>\<open>toString\<close>, \<^verbatim>\<open>valueOf\<close>, \<^verbatim>\<open>hasOwnProperty\<close>,
    \<^verbatim>\<open>__proto__\<close> and the like), where \<open>map_of\<close> finds nothing;
  \<^item> writing \<^verbatim>\<open>o["__proto__"] = v\<close> sets the prototype of \<^verbatim>\<open>o\<close> and adds no key,
    where \<open>AList.update\<close> adds one;
  \<^item> \<^verbatim>\<open>Object.keys\<close> puts keys that look like array indices first, where the list
    keeps insertion order (the summary sorts its lists anyway).
  The last subsection says what the program does on such names and which properties of
  the model are therefore not properties of the program. Values have their TypeScript
  types: a name is a string, a handle is an object and so truthy, \<^verbatim>\<open>Date.now()\<close> is
  an integer number of milliseconds.
\<close>

subsection \<open>Handles and the provider directory\<close>

text \<open>
  A \<^verbatim>\<open>LanguageModel\<close> is an opaque object whose identity matters. A handle built
  by a provider factory carries the identity it was allocated with, the SDK client that
  built it and the model name the client was given. The handles of the OpenAI-compatible
  providers are built outside this module and arrive ready-made.
\<close>

datatype LanguageModel =
    Handle nat string string
  | CompatibleModel nat string

type_synonym ProviderFactory = "string \<Rightarrow> nat \<Rightarrow> LanguageModel"

definition sdk :: "string \<Rightarrow> ProviderFactory" where
  "sdk c = (\<lambda>m i. Handle i c m)"

definition providerFactories :: "string \<Rightarrow> ProviderFactory option" where
  "providerFactories = map_of
     [(''openai'', sdk ''openai''),
      (''google'', sdk ''google''),
      (''anthropic'', sdk ''anthropic''),
      (''xai'', sdk ''xai''),
      (''ollama'', sdk ''ollamaClient''),
      (''groq'', sdk ''groqClient''),
      (''openRouter'', sdk ''openrouter'')]"

definition imageInputSupportedProviders :: "string list" where
  "imageInputSupportedProviders = [''google'', ''xai'', ''openai'', ''anthropic'']"

definition modelKey :: "string \<Rightarrow> string \<Rightarrow> string" where
  "modelKey provider nm = provider @ ''::'' @ nm"

definition fallbackToolUnsupportedKeys :: "string list" where
  "fallbackToolUnsupportedKeys =
     [modelKey ''openai'' ''o4-mini'',
      modelKey ''ollama'' ''gemma3:1b'',
      modelKey ''ollama'' ''gemma3:4b'',
      modelKey ''ollama'' ''gemma3:12b'',
      modelKey ''openRouter'' ''openai/gpt-oss-20b:free'',
      modelKey ''openRouter'' ''qwen/qwen3-8b:free'',
      modelKey ''openRouter'' ''qwen/qwen3-14b:free'',
      modelKey ''openRouter'' ''deepseek/deepseek-r1-0528:free'',
      modelKey ''openRouter'' ''google/gemini-2.0-flash-exp:free'']"

definition hasValidKey :: "string option \<Rightarrow> bool" where
  "hasValidKey key = (case key of None \<Rightarrow> False | Some k \<Rightarrow> k \<noteq> [] \<and> k \<noteq> ''****'')"

definition startsWith :: "string \<Rightarrow> string \<Rightarrow> bool" where
  "startsWith s pre = prefix pre s"

subsection \<open>Records of the module\<close>

record RegisterOptions =
  displayName :: "string option"
  apiName :: "string option"
  isToolCallUnsupported :: "bool option"
  isImageInputUnsupported :: "bool option"
  model :: "LanguageModel option"

record ModelRegistration =
  name :: string
  regDisplayName :: "string option"
  regApiName :: "string option"
  regIsToolCallUnsupported :: "bool option"
  regIsImageInputUnsupported :: "bool option"

record ModelMetadata =
  metaDisplayName :: "string option"
  metaIsToolCallUnsupported :: bool
  metaIsImageInputUnsupported :: bool

text \<open>
  A refresh promise is pending (remembering the providers whose loader was called),
  fulfilled or rejected.
\<close>

datatype promiseState = Pending "string list" | Fulfilled | Rejected

record registry =
  allModels :: "(string \<times> (string \<times> LanguageModel) list) list"
  modelMetadata :: "(string \<times> ModelMetadata) list"
  modelInstanceLookup :: "(LanguageModel \<times> string) list"
  providerHasExplicitKey :: "(string \<times> bool) list"
  nextObject :: nat
  lastRefreshAt :: int
  currentRefresh :: "nat option"
  promises :: "(nat \<times> promiseState) list"

definition emptyRegistry :: registry where
  "emptyRegistry =
     \<lparr>allModels = [], modelMetadata = [], modelInstanceLookup = [],
      providerHasExplicitKey = [], nextObject = 0, lastRefreshAt = 0,
      currentRefresh = None, promises = []\<rparr>"

definition noOptions :: RegisterOptions where
  "noOptions =
     \<lparr>displayName = None, apiName = None, isToolCallUnsupported = None,
      isImageInputUnsupported = None, model = None\<rparr>"

subsection \<open>registerModel and clearProvider\<close>

text \<open>
  \<^verbatim>\<open>options.model || (factory ? factory(options.apiName || name) : undefined)\<close>:
  a supplied handle wins; otherwise the provider's factory builds a new object, under the
  API name unless that is absent or empty. The result is the handle, if any, and the
  state with the allocation recorded.
\<close>

definition resolveInstance ::
  "string \<Rightarrow> string \<Rightarrow> RegisterOptions \<Rightarrow> registry \<Rightarrow> LanguageModel option \<times> registry" where
  "resolveInstance provider nm options s =
     (case model options of
        Some m \<Rightarrow> (Some m, s)
      | None \<Rightarrow>
          (case providerFactories provider of
             Some factory \<Rightarrow>
               (Some (factory (case apiName options of
                                 None \<Rightarrow> nm
                               | Some a \<Rightarrow> if a = [] then nm else a) (nextObject s)),
                s\<lparr>nextObject := Suc (nextObject s)\<rparr>)
           | None \<Rightarrow> (None, s)))"

definition metadataFor :: "string \<Rightarrow> string \<Rightarrow> RegisterOptions \<Rightarrow> ModelMetadata" where
  "metadataFor provider nm options =
     \<lparr>metaDisplayName = displayName options,
      metaIsToolCallUnsupported =
        (case isToolCallUnsupported options of
           Some b \<Rightarrow> b
         | None \<Rightarrow> modelKey provider nm \<in> set fallbackToolUnsupportedKeys),
      metaIsImageInputUnsupported =
        (case isImageInputUnsupported options of
           Some b \<Rightarrow> b
         | None \<Rightarrow> provider \<notin> set imageInputSupportedProviders)\<rparr>"

definition bucketOf :: "registry \<Rightarrow> string \<Rightarrow> (string \<times> LanguageModel) list" where
  "bucketOf s provider = (case map_of (allModels s) provider of None \<Rightarrow> [] | Some b \<Rightarrow> b)"

definition registerModel :: "string \<Rightarrow> string \<Rightarrow> RegisterOptions \<Rightarrow> registry \<Rightarrow> registry" where
  "registerModel provider nm options s =
     (case resolveInstance provider nm options s of
        (None, _) \<Rightarrow> s
      | (Some modelInstance, s1) \<Rightarrow>
          s1\<lparr>allModels :=
                AList.update provider (AList.update nm modelInstance (bucketOf s1 provider))
                  (allModels s1),
              modelMetadata :=
                AList.update (modelKey provider nm) (metadataFor provider nm options)
                  (modelMetadata s1),
              modelInstanceLookup :=
                AList.update modelInstance (modelKey provider nm) (modelInstanceLookup s1)\<rparr>)"

definition clearProvider :: "string \<Rightarrow> registry \<Rightarrow> registry" where
  "clearProvider provider s =
     (let keys = filter (\<lambda>key. startsWith key (provider @ ''::'')) (map fst (modelMetadata s))
      in s\<lparr>allModels := AList.delete provider (allModels s),
            modelMetadata := fold AList.delete keys (modelMetadata s)\<rparr>)"

text \<open>Reading the two stores.\<close>

definition lookupModel :: "registry \<Rightarrow> string \<Rightarrow> string \<Rightarrow> LanguageModel option" where
  "lookupModel s provider nm =
     (case map_of (allModels s) provider of None \<Rightarrow> None | Some b \<Rightarrow> map_of b nm)"

definition lookupMetadata :: "registry \<Rightarrow> string \<Rightarrow> string \<Rightarrow> ModelMetadata option" where
  "lookupMetadata s provider nm = map_of (modelMetadata s) (modelKey provider nm)"

definition isToolCallUnsupportedModel :: "registry \<Rightarrow> LanguageModel \<Rightarrow> bool" where
  "isToolCallUnsupportedModel s m =
     (case map_of (modelInstanceLookup s) m of
        None \<Rightarrow> False
      | Some key \<Rightarrow>
          (case map_of (modelMetadata s) key of
             None \<Rightarrow> False
           | Some meta \<Rightarrow> metaIsToolCallUnsupported meta))"

subsection \<open>Seed loading\<close>

definition seed :: "string \<Rightarrow> ModelRegistration" where
  "seed n =
     \<lparr>name = n, regDisplayName = None, regApiName = None,
      regIsToolCallUnsupported = None, regIsImageInputUnsupported = None\<rparr>"

definition seedNamed :: "string \<Rightarrow> string \<Rightarrow> ModelRegistration" where
  "seedNamed n d = (seed n)\<lparr>regDisplayName := Some d\<rparr>"

definition seedImage :: "string \<Rightarrow> string \<Rightarrow> ModelRegistration" where
  "seedImage n d = (seed n)\<lparr>regDisplayName := Some d, regIsImageInputUnsupported := Some False\<rparr>"

definition staticModelSeed :: "(string \<times> ModelRegistration list) list" where
  "staticModelSeed =
     [(''openai'',
         [seed ''gpt-4.1'', seed ''gpt-4.1-mini'', seed ''o4-mini'', seed ''o3'',
          seed ''gpt-5'', seed ''gpt-5-mini'', seed ''gpt-5-nano'']),
      (''google'',
         [seed ''gemini-2.5-flash-lite'', seed ''gemini-2.5-flash'', seed ''gemini-2.5-pro'']),
      (''anthropic'',
         [seedNamed ''claude-sonnet-4-5'' ''sonnet-4.5'',
          seedNamed ''claude-opus-4-1'' ''opus-4.1'']),
      (''xai'',
         [seedNamed ''grok-4-fast-non-reasoning'' ''grok-4-fast'',
          seed ''grok-4'', seed ''grok-3'', seed ''grok-3-mini'']),
      (''ollama'',
         [seed ''gemma3:1b'', seed ''gemma3:4b'', seed ''gemma3:12b'']),
      (''groq'',
         [seedImage ''moonshotai/kimi-k2-instruct'' ''kimi-k2-instruct'',
          seedImage ''meta-llama/llama-4-scout-17b-16e-instruct'' ''llama-4-scout-17b'',
          seedImage ''openai/gpt-oss-20b'' ''gpt-oss-20b'',
          seedImage ''openai/gpt-oss-120b'' ''gpt-oss-120b'',
          seedImage ''qwen/qwen3-32b'' ''qwen3-32b'']),
      (''openRouter'',
         [seedImage ''openai/gpt-oss-20b:free'' ''gpt-oss-20b:free'',
          seedImage ''qwen/qwen3-8b:free'' ''qwen3-8b:free'',
          seedImage ''qwen/qwen3-14b:free'' ''qwen3-14b:free'',
          seedImage ''qwen/qwen3-coder:free'' ''qwen3-coder:free'',
          seedImage ''deepseek/deepseek-r1-0528:free'' ''deepseek-r1:free'',
          seedImage ''deepseek/deepseek-chat-v3-0324:free'' ''deepseek-v3:free'',
          seedImage ''google/gemini-2.0-flash-exp:free'' ''gemini-2.0-flash-exp:free''])]"

definition seedOptions :: "string \<Rightarrow> ModelRegistration \<Rightarrow> RegisterOptions" where
  "seedOptions provider entry =
     \<lparr>displayName = regDisplayName entry,
      apiName = regApiName entry,
      isToolCallUnsupported =
        Some (case regIsToolCallUnsupported entry of
                Some b \<Rightarrow> b
              | None \<Rightarrow> modelKey provider (name entry) \<in> set fallbackToolUnsupportedKeys),
      isImageInputUnsupported = regIsImageInputUnsupported entry,
      model = None\<rparr>"

definition loadSeed :: "registry \<Rightarrow> registry" where
  "loadSeed s =
     fold (\<lambda>(provider, models) s1.
             fold (\<lambda>entry. registerModel provider (name entry) (seedOptions provider entry))
               models s1)
       staticModelSeed s"

text \<open>
  The parser and the handle builder of the OpenAI-compatible providers live in another
  module; what they return is a parameter of the model: the parsed provider list with
  each API key, the handles per provider and model name, and the set of handles without
  tool support.
\<close>

record compatibleConfig =
  openaiCompatibleProviders :: "(string \<times> string option) list"
  openaiCompatibleModels :: "(string \<times> (string \<times> LanguageModel) list) list"
  openaiCompatibleUnsupportedModels :: "LanguageModel list"

definition compatibleOptions :: "compatibleConfig \<Rightarrow> string \<Rightarrow> LanguageModel \<Rightarrow> RegisterOptions" where
  "compatibleOptions cfg nm m =
     \<lparr>displayName = Some nm,
      apiName = None,
      isToolCallUnsupported = Some (m \<in> set (openaiCompatibleUnsupportedModels cfg)),
      isImageInputUnsupported = Some False,
      model = Some m\<rparr>"

definition recordExplicitKeys :: "compatibleConfig \<Rightarrow> registry \<Rightarrow> registry" where
  "recordExplicitKeys cfg s =
     fold (\<lambda>(provider, apiKey) s1.
             s1\<lparr>providerHasExplicitKey :=
                  AList.update provider (hasValidKey apiKey) (providerHasExplicitKey s1)\<rparr>)
       (openaiCompatibleProviders cfg) s"

definition registerCompatible :: "compatibleConfig \<Rightarrow> registry \<Rightarrow> registry" where
  "registerCompatible cfg s =
     fold (\<lambda>(provider, models) s1.
             fold (\<lambda>(nm, m). registerModel provider nm (compatibleOptions cfg nm m)) models s1)
       (openaiCompatibleModels cfg) s"

definition moduleInit :: "compatibleConfig \<Rightarrow> registry" where
  "moduleInit cfg = registerCompatible cfg (recordExplicitKeys cfg (loadSeed emptyRegistry))"

subsection \<open>The resolver\<close>

datatype error = FallbackUnavailable | LoaderFailed

definition fallbackProvider :: string where
  "fallbackProvider = ''openai''"

definition fallbackModelName :: string where
  "fallbackModelName = ''gpt-4.1''"

definition withModel :: "LanguageModel \<Rightarrow> RegisterOptions" where
  "withModel m = noOptions\<lparr>model := Some m\<rparr>"

definition fallbackModel :: "registry \<Rightarrow> (error + LanguageModel) \<times> registry" where
  "fallbackModel s =
     (case lookupModel s fallbackProvider fallbackModelName of
        Some m \<Rightarrow> (Inr m, s)
      | None \<Rightarrow>
          (case providerFactories fallbackProvider of
             Some factory \<Rightarrow>
               (let created = factory fallbackModelName (nextObject s);
                    s1 = s\<lparr>nextObject := Suc (nextObject s)\<rparr>
                in (Inr created,
                    registerModel fallbackProvider fallbackModelName (withModel created) s1))
           | None \<Rightarrow> (Inl FallbackUnavailable, s)))"

record ChatModel =
  chatProvider :: string
  chatModel :: string

definition getModel :: "ChatModel option \<Rightarrow> registry \<Rightarrow> (error + LanguageModel) \<times> registry" where
  "getModel ref s =
     (case ref of
        None \<Rightarrow> fallbackModel s
      | Some r \<Rightarrow>
          (case lookupModel s (chatProvider r) (chatModel r) of
             Some selected \<Rightarrow> (Inr selected, s)
           | None \<Rightarrow>
               (case providerFactories (chatProvider r) of
                  Some factory \<Rightarrow>
                    (let fallback = factory (chatModel r) (nextObject s);
                         s1 = s\<lparr>nextObject := Suc (nextObject s)\<rparr>
                     in (Inr fallback,
                         registerModel (chatProvider r) (chatModel r) (withModel fallback) s1))
                | None \<Rightarrow> fallbackModel s)))"

subsection \<open>Credential checks\<close>

text \<open>\<^verbatim>\<open>process.env\<close> is a parameter: a lookup from variable name to value.\<close>

type_synonym environment = "string \<Rightarrow> string option"

definition providerKeyCheckers :: "environment \<Rightarrow> string \<Rightarrow> bool option" where
  "providerKeyCheckers env = map_of
     [(''openai'', hasValidKey (env ''OPENAI_API_KEY'')),
      (''google'', hasValidKey (env ''GOOGLE_GENERATIVE_AI_API_KEY'')),
      (''anthropic'', hasValidKey (env ''ANTHROPIC_API_KEY'')),
      (''xai'', hasValidKey (env ''XAI_API_KEY'')),
      (''groq'', hasValidKey (env ''GROQ_API_KEY'')),
      (''openRouter'', hasValidKey (env ''OPENROUTER_API_KEY'')),
      (''ollama'', True)]"

definition checkProviderAPIKey :: "environment \<Rightarrow> registry \<Rightarrow> string \<Rightarrow> bool" where
  "checkProviderAPIKey env s provider =
     (case map_of (providerHasExplicitKey s) provider of
        Some b \<Rightarrow> b
      | None \<Rightarrow>
          (case providerKeyCheckers env provider of
             Some b \<Rightarrow> b
           | None \<Rightarrow> True))"

subsection \<open>The refresh coordinator\<close>

text \<open>
  \<^verbatim>\<open>refreshModels\<close> is an async function. Its run is cut at its two suspension
  points into three steps, each of which runs to completion on the single JavaScript thread:
  \<^item> \<open>refreshModels\<close>: the call itself, up to \<^verbatim>\<open>await currentRefresh\<close>. A new round
    creates the promise, and the per-provider tasks run up to their first
    \<^verbatim>\<open>await\<close>: the credential check is made and, where it passes, the loader is
    called.
  \<^item> \<open>refreshSettle\<close>: the rest of the promise's body, once every loader has settled
    (\<^verbatim>\<open>Promise.all\<close>): the results are written to the catalog and
    \<^verbatim>\<open>lastRefreshAt\<close> is set.
  \<^item> \<open>refreshResume\<close>: the continuation of the call that started the round, after its
    \<^verbatim>\<open>await\<close>: \<^verbatim>\<open>currentRefresh = null\<close>.
  What a loader does on the network is outside the module's control; its outcome is a
  parameter of \<open>refreshSettle\<close>. \<^verbatim>\<open>Date.now()\<close> is a parameter as well.
\<close>

definition fetchers :: "string list" where
  "fetchers = [''openai'', ''google'', ''anthropic'', ''xai'', ''groq'', ''openRouter'', ''ollama'']"

datatype fetchOutcome = LoaderThrew | LoaderReturned "ModelRegistration list"

datatype callResult = Returned | Awaiting nat | Started nat

definition refreshModels ::
  "environment \<Rightarrow> bool \<Rightarrow> int \<Rightarrow> registry \<Rightarrow> callResult \<times> registry" where
  "refreshModels env force now s =
     (if \<not> force \<and> now - lastRefreshAt s < 1000 * 60 * 5 then (Returned, s)
      else
        (case currentRefresh s of
           Some p \<Rightarrow> (Awaiting p, s)
         | None \<Rightarrow>
             (let p = length (promises s);
                  called = filter (checkProviderAPIKey env s) fetchers
              in (Started p,
                  s\<lparr>currentRefresh := Some p,
                    promises := promises s @ [(p, Pending called)]\<rparr>))))"

text \<open>The body of the \<^verbatim>\<open>try\<close> of one provider's task, and the task with its \<^verbatim>\<open>catch\<close>.\<close>

definition providerTry ::
  "bool \<Rightarrow> string \<Rightarrow> fetchOutcome \<Rightarrow> error + (string \<times> ModelRegistration list)" where
  "providerTry keyOk provider outcome =
     (if \<not> keyOk then Inr (provider, [])
      else
        (case outcome of
           LoaderThrew \<Rightarrow> Inl LoaderFailed
         | LoaderReturned models \<Rightarrow> Inr (provider, models)))"

definition providerTask ::
  "bool \<Rightarrow> string \<Rightarrow> fetchOutcome \<Rightarrow> error + (string \<times> ModelRegistration list)" where
  "providerTask keyOk provider outcome =
     (case providerTry keyOk provider outcome of
        Inl _ \<Rightarrow> Inr (provider, [])
      | Inr r \<Rightarrow> Inr r)"

fun promiseAll :: "(error + 'a) list \<Rightarrow> error + 'a list" where
  "promiseAll [] = Inr []"
| "promiseAll (Inl e # _) = Inl e"
| "promiseAll (Inr x # ts) = (case promiseAll ts of Inl e \<Rightarrow> Inl e | Inr xs \<Rightarrow> Inr (x # xs))"

definition refreshOptions :: "ModelRegistration \<Rightarrow> RegisterOptions" where
  "refreshOptions entry =
     \<lparr>displayName = regDisplayName entry,
      apiName = regApiName entry,
      isToolCallUnsupported = regIsToolCallUnsupported entry,
      isImageInputUnsupported = regIsImageInputUnsupported entry,
      model = None\<rparr>"

definition applyResult :: "string \<times> ModelRegistration list \<Rightarrow> registry \<Rightarrow> registry" where
  "applyResult r s =
     (case r of (provider, models) \<Rightarrow>
        if models = [] then s
        else fold (\<lambda>entry. registerModel provider (name entry) (refreshOptions entry)) models
               (clearProvider provider s))"

definition applyResults :: "(string \<times> ModelRegistration list) list \<Rightarrow> registry \<Rightarrow> registry" where
  "applyResults results s = fold applyResult results s"

definition refreshTasks ::
  "string list \<Rightarrow> (string \<Rightarrow> fetchOutcome) \<Rightarrow> (error + (string \<times> ModelRegistration list)) list" where
  "refreshTasks called outcomes =
     map (\<lambda>provider. providerTask (provider \<in> set called) provider (outcomes provider)) fetchers"

definition refreshSettle :: "(string \<Rightarrow> fetchOutcome) \<Rightarrow> int \<Rightarrow> registry \<Rightarrow> registry" where
  "refreshSettle outcomes now s =
     (case currentRefresh s of
        None \<Rightarrow> s
      | Some p \<Rightarrow>
          (case map_of (promises s) p of
             Some (Pending called) \<Rightarrow>
               (case promiseAll (refreshTasks called outcomes) of
                  Inl e \<Rightarrow> s\<lparr>promises := AList.update p Rejected (promises s)\<rparr>
                | Inr results \<Rightarrow>
                    (applyResults results s)
                      \<lparr>lastRefreshAt := now,
                       promises := AList.update p Fulfilled (promises s)\<rparr>)
           | _ \<Rightarrow> s))"

text \<open>
  The call that started promise \<open>p\<close> resumes once \<open>p\<close> is settled. On a fulfilled
  promise it clears the marker; on a rejected one the \<^verbatim>\<open>await\<close> throws and the
  assignment is not reached.
\<close>

definition refreshResume :: "nat \<Rightarrow> registry \<Rightarrow> registry" where
  "refreshResume p s =
     (case map_of (promises s) p of
        Some Fulfilled \<Rightarrow> s\<lparr>currentRefresh := None\<rparr>
      | _ \<Rightarrow> s)"

text \<open>A call has completed when it returned at once or the promise it awaits is settled.\<close>

definition completed :: "callResult \<Rightarrow> registry \<Rightarrow> bool" where
  "completed r s =
     (case r of
        Returned \<Rightarrow> True
      | Awaiting p \<Rightarrow> map_of (promises s) p \<in> {Some Fulfilled, Some Rejected}
      | Started p \<Rightarrow> map_of (promises s) p \<in> {Some Fulfilled, Some Rejected})"

subsection \<open>The catalog summary\<close>

text \<open>
  \<^verbatim>\<open>localeCompare\<close> belongs to the host; the two orders are parameters, each telling
  whether its first argument may stand before its second. \<^verbatim>\<open>Array.prototype.sort\<close> is
  a stable sort, modelled by insertion.
\<close>

fun insertBy :: "('a \<Rightarrow> 'a \<Rightarrow> bool) \<Rightarrow> 'a \<Rightarrow> 'a list \<Rightarrow> 'a list" where
  "insertBy le x [] = [x]"
| "insertBy le x (y # ys) = (if le x y then x # y # ys else y # insertBy le x ys)"

definition sortBy :: "('a \<Rightarrow> 'a \<Rightarrow> bool) \<Rightarrow> 'a list \<Rightarrow> 'a list" where
  "sortBy le xs = foldr (insertBy le) xs []"

record ModelInfo =
  infoName :: string
  infoDisplayName :: "string option"
  infoIsToolCallUnsupported :: bool
  infoIsImageInputUnsupported :: bool

record ProviderInfo =
  infoProvider :: string
  hasAPIKey :: bool
  models :: "ModelInfo list"

definition modelInfo :: "registry \<Rightarrow> string \<Rightarrow> string \<Rightarrow> ModelInfo" where
  "modelInfo s provider nm =
     (let meta = map_of (modelMetadata s) (modelKey provider nm)
      in \<lparr>infoName = nm,
          infoDisplayName =
            (case meta of
               None \<Rightarrow> None
             | Some m \<Rightarrow>
                 (case metaDisplayName m of
                    None \<Rightarrow> None
                  | Some d \<Rightarrow> if d \<noteq> [] \<and> d \<noteq> nm then Some d else None)),
          infoIsToolCallUnsupported =
            (case meta of None \<Rightarrow> False | Some m \<Rightarrow> metaIsToolCallUnsupported m),
          infoIsImageInputUnsupported =
            (case meta of
               None \<Rightarrow> provider \<notin> set imageInputSupportedProviders
             | Some m \<Rightarrow> metaIsImageInputUnsupported m)\<rparr>)"

definition label :: "ModelInfo \<Rightarrow> string" where
  "label a = (case infoDisplayName a of None \<Rightarrow> infoName a | Some d \<Rightarrow> if d = [] then infoName a else d)"

definition buildModelsInfo ::
  "(string \<Rightarrow> string \<Rightarrow> bool) \<Rightarrow> (string \<Rightarrow> string \<Rightarrow> bool) \<Rightarrow> environment \<Rightarrow> registry \<Rightarrow>
     ProviderInfo list" where
  "buildModelsInfo labelLe providerLe env s =
     sortBy (\<lambda>a b. providerLe (infoProvider a) (infoProvider b))
       (map (\<lambda>(provider, bucket).
               \<lparr>infoProvider = provider,
                hasAPIKey = checkProviderAPIKey env s provider,
                models =
                  sortBy (\<lambda>a b. labelLe (label a) (label b))
                    (map (\<lambda>nm. modelInfo s provider nm) (map fst bucket))\<rparr>)
          (allModels s))"

subsection \<open>Reachable states\<close>

text \<open>
  The states the module can be in: the empty stores it starts from, and whatever the
  operations make of a state that can be reached. Seed loading is a sequence of
  \<open>registerModel\<close> calls and of writes to the credential overrides.
\<close>

inductive reachable :: "environment \<Rightarrow> registry \<Rightarrow> bool" for env :: environment where
  start: "reachable env emptyRegistry"
| register: "reachable env s \<Longrightarrow> reachable env (registerModel provider nm options s)"
| clear: "reachable env s \<Longrightarrow> reachable env (clearProvider provider s)"
| explicitKey:
    "reachable env s \<Longrightarrow>
     reachable env (s\<lparr>providerHasExplicitKey := AList.update provider b (providerHasExplicitKey s)\<rparr>)"
| resolve: "reachable env s \<Longrightarrow> reachable env (snd (getModel ref s))"
| refresh: "reachable env s \<Longrightarrow> reachable env (snd (refreshModels env force now s))"
| settle: "reachable env s \<Longrightarrow> reachable env (refreshSettle outcomes now s)"
| resume: "reachable env s \<Longrightarrow> currentRefresh s = Some p \<Longrightarrow> reachable env (refreshResume p s)"

subsection \<open>Invariants and sample states\<close>

text \<open>
  Promise identities are allocated in sequence, the marker points at an allocated
  promise, and a pending promise is the one the marker points at.
\<close>

definition promisesOk :: "registry \<Rightarrow> bool" where
  "promisesOk s =
     (map fst (promises s) = [0..<length (promises s)] \<and>
      (\<forall>p. currentRefresh s = Some p \<longrightarrow> p < length (promises s)) \<and>
      (\<forall>p c. (p, Pending c) \<in> set (promises s) \<longrightarrow> currentRefresh s = Some p))"

text \<open>
  A process without any API key: a first refresh runs and completes, a forced refresh is
  started a second later and is still waiting for its loaders.
\<close>

definition noKeys :: environment where
  "noKeys = (\<lambda>_. None)"

definition allThrow :: "string \<Rightarrow> fetchOutcome" where
  "allThrow = (\<lambda>_. LoaderThrew)"

definition afterFirstRefresh :: registry where
  "afterFirstRefresh =
     refreshResume 0
       (refreshSettle allThrow 1700000000500
          (snd (refreshModels noKeys False 1700000000000 emptyRegistry)))"

definition forcedInFlight :: registry where
  "forcedInFlight = snd (refreshModels noKeys True 1700000001000 afterFirstRefresh)"

text \<open>
  A JavaScript object or \<^verbatim>\<open>Map\<close> holds a key once. \<open>valuesAt\<close> lists all that an
  association list holds under a key, \<open>entriesUnder\<close> all handles the catalog holds under
  a provider and model name, \<open>recordsUnder\<close> all metadata records under a key.
\<close>

definition distinctKeys :: "registry \<Rightarrow> bool" where
  "distinctKeys s =
     (distinct (map fst (allModels s)) \<and>
      (\<forall>e \<in> set (allModels s). distinct (map fst (snd e))) \<and>
      distinct (map fst (modelMetadata s)))"




text \<open>
  Every name in a bucket of the catalog has a metadata record under its key; and no
  provider of the catalog has a colon in its name.
\<close>

definition metadataComplete :: "registry \<Rightarrow> bool" where
  "metadataComplete s =
     (\<forall>provider nm. lookupModel s provider nm \<noteq> None \<longrightarrow> lookupMetadata s provider nm \<noteq> None)"

definition colonFree :: "registry \<Rightarrow> bool" where
  "colonFree s = (\<forall>provider \<in> fst ` set (allModels s). CHR '':'' \<notin> set provider)"

text \<open>Whether a string has two colons in a row.\<close>

fun doubleColon :: "string \<Rightarrow> bool" where
  "doubleColon (a # b # cs) = ((a = CHR '':'' \<and> b = CHR '':'') \<or> doubleColon (b # cs))"
| "doubleColon _ = False"

definition nonEmptyBuckets :: "registry \<Rightarrow> bool" where
  "nonEmptyBuckets s = (\<forall>e \<in> set (allModels s). snd e \<noteq> [])"

text \<open>
  What belongs to a provider: its bucket in the catalog and the metadata records whose
  key starts with the provider's name and \<^verbatim>\<open>::\<close>. \<open>untouched provider s s'\<close> says
  that \<open>s'\<close> holds for the provider exactly what \<open>s\<close> holds.
\<close>

definition untouched :: "string \<Rightarrow> registry \<Rightarrow> registry \<Rightarrow> bool" where
  "untouched provider s s' =
     (map_of (allModels s') provider = map_of (allModels s) provider \<and>
      (\<forall>key. startsWith key (provider @ ''::'') \<longrightarrow>
         map_of (modelMetadata s') key = map_of (modelMetadata s) key))"

abbreviation registerAll :: "string \<Rightarrow> ModelRegistration list \<Rightarrow> registry \<Rightarrow> registry" where
  "registerAll provider ms s \<equiv>
     fold (\<lambda>entry. registerModel provider (name entry) (refreshOptions entry)) ms s"

text \<open>What one provider's task hands to the write phase of a refresh.\<close>

definition settled ::
  "string list \<Rightarrow> (string \<Rightarrow> fetchOutcome) \<Rightarrow> string \<Rightarrow> ModelRegistration list" where
  "settled called outcomes provider =
     (if provider \<in> set called
      then (case outcomes provider of LoaderThrew \<Rightarrow> [] | LoaderReturned ms \<Rightarrow> ms)
      else [])"

text \<open>
  A process with an OpenAI key that knows one OpenAI and one Ollama model; a refresh is
  started, the OpenAI listing answers with two models and the Ollama loader throws.
\<close>

definition openaiKey :: environment where
  "openaiKey = (\<lambda>v. if v = ''OPENAI_API_KEY'' then Some ''sk-test'' else None)"

definition openaiListed :: "string \<Rightarrow> fetchOutcome" where
  "openaiListed =
     (\<lambda>provider. if provider = ''openai'' then LoaderReturned [seed ''gpt-5'', seed ''o3'']
                 else LoaderThrew)"

definition twoProviders :: registry where
  "twoProviders =
     registerModel ''ollama'' ''gemma3:1b'' noOptions
       (registerModel ''openai'' ''gpt-4.1'' noOptions emptyRegistry)"

definition twoProvidersInFlight :: registry where
  "twoProvidersInFlight = snd (refreshModels openaiKey False 1700000000000 twoProviders)"

text \<open>
  A process configured with an OpenAI-compatible provider named \<^verbatim>\<open>openai::proxy\<close>,
  and the same refresh on it.
\<close>

definition proxyConfig :: compatibleConfig where
  "proxyConfig =
     \<lparr>openaiCompatibleProviders = [(''openai::proxy'', Some ''sk-proxy'')],
      openaiCompatibleModels = [(''openai::proxy'', [(''m'', CompatibleModel 0 ''m'')])],
      openaiCompatibleUnsupportedModels = []\<rparr>"

definition proxyInFlight :: registry where
  "proxyInFlight = snd (refreshModels openaiKey False 1700000000000 (moduleInit proxyConfig))"

definition proxyRefreshed :: registry where
  "proxyRefreshed = refreshResume 0 (refreshSettle openaiListed 1700000000500 proxyInFlight)"

section \<open>Properties\<close>

subsection \<open>What the catalog operations leave alone\<close>

lemma registerModel_refresh_fields:
  "promises (registerModel provider nm options s) = promises s"
  "currentRefresh (registerModel provider nm options s) = currentRefresh s"
  "lastRefreshAt (registerModel provider nm options s) = lastRefreshAt s"
  "providerHasExplicitKey (registerModel provider nm options s) = providerHasExplicitKey s"
  by (simp_all add: registerModel_def resolveInstance_def split: option.splits prod.splits)

lemma clearProvider_refresh_fields:
  "promises (clearProvider provider s) = promises s"
  "currentRefresh (clearProvider provider s) = currentRefresh s"
  "lastRefreshAt (clearProvider provider s) = lastRefreshAt s"
  "providerHasExplicitKey (clearProvider provider s) = providerHasExplicitKey s"
  by (simp_all add: clearProvider_def Let_def)

lemma fallbackModel_refresh_fields:
  "promises (snd (fallbackModel s)) = promises s"
  "currentRefresh (snd (fallbackModel s)) = currentRefresh s"
  "lastRefreshAt (snd (fallbackModel s)) = lastRefreshAt s"
  by (simp_all add: fallbackModel_def Let_def registerModel_refresh_fields split: option.splits)

lemma getModel_refresh_fields:
  "promises (snd (getModel ref s)) = promises s"
  "currentRefresh (snd (getModel ref s)) = currentRefresh s"
  "lastRefreshAt (snd (getModel ref s)) = lastRefreshAt s"
  by (simp_all add: getModel_def Let_def registerModel_refresh_fields fallbackModel_refresh_fields
      split: option.splits)

lemma registerAll_refresh_fields:
  "promises (fold (\<lambda>entry. registerModel provider (name entry) (opts entry)) ms s) = promises s"
  "currentRefresh (fold (\<lambda>entry. registerModel provider (name entry) (opts entry)) ms s) = currentRefresh s"
  "lastRefreshAt (fold (\<lambda>entry. registerModel provider (name entry) (opts entry)) ms s) = lastRefreshAt s"
  by (induction ms arbitrary: s) (simp_all add: registerModel_refresh_fields)

lemma applyResult_refresh_fields:
  "promises (applyResult r s) = promises s"
  "currentRefresh (applyResult r s) = currentRefresh s"
  "lastRefreshAt (applyResult r s) = lastRefreshAt s"
  by (simp_all add: applyResult_def registerAll_refresh_fields clearProvider_refresh_fields
      split: prod.splits)

lemma applyResults_refresh_fields:
  "promises (applyResults rs s) = promises s"
  "currentRefresh (applyResults rs s) = currentRefresh s"
  "lastRefreshAt (applyResults rs s) = lastRefreshAt s"
  unfolding applyResults_def
  by (induction rs arbitrary: s) (simp_all add: applyResult_refresh_fields)

lemma providerTask_Inr: "\<exists>ms. providerTask keyOk provider outcome = Inr (provider, ms)"
  by (cases outcome) (simp_all add: providerTask_def providerTry_def)

lemma promiseAll_Inr:
  "(\<forall>t \<in> set ts. \<exists>x. t = Inr x) \<Longrightarrow> \<exists>xs. promiseAll ts = Inr xs"
proof (induction ts)
  case Nil
  then show ?case by simp
next
  case (Cons t ts)
  then obtain x where "t = Inr x" by auto
  moreover from Cons obtain xs where "promiseAll ts = Inr xs" by auto
  ultimately show ?case by simp
qed

lemma refreshTasks_Inr: "\<exists>results. promiseAll (refreshTasks called outcomes) = Inr results"
proof (rule promiseAll_Inr, rule ballI)
  fix t assume "t \<in> set (refreshTasks called outcomes)"
  then obtain provider where "t = providerTask (provider \<in> set called) provider (outcomes provider)"
    by (auto simp: refreshTasks_def)
  then show "\<exists>x. t = Inr x" using providerTask_Inr by metis
qed

lemma update_existing_keys:
  "k \<in> fst ` set al \<Longrightarrow> map fst (AList.update k v al) = map fst al"
  by (simp add: update_keys)

lemma promisesOk_distinct: "promisesOk s \<Longrightarrow> distinct (map fst (promises s))"
  by (simp add: promisesOk_def)

lemma reachable_promisesOk: "reachable env s \<Longrightarrow> promisesOk s"
proof (induction rule: reachable.induct)
  case start
  then show ?case by (simp add: promisesOk_def emptyRegistry_def)
next
  case (register s provider nm options)
  then show ?case by (simp add: promisesOk_def registerModel_refresh_fields)
next
  case (clear s provider)
  then show ?case by (simp add: promisesOk_def clearProvider_refresh_fields)
next
  case (explicitKey s provider b)
  then show ?case by (simp add: promisesOk_def)
next
  case (resolve s ref)
  then show ?case by (simp add: promisesOk_def getModel_refresh_fields)
next
  case (refresh s force now)
  then show ?case
    by (auto simp: promisesOk_def refreshModels_def Let_def split: option.splits)
next
  case (settle s outcomes now)
  show ?case
  proof (cases "currentRefresh s")
    case None
    with settle show ?thesis by (simp add: refreshSettle_def)
  next
    case (Some p)
    show ?thesis
    proof (cases "\<exists>called. map_of (promises s) p = Some (Pending called)")
      case False
      with Some settle show ?thesis
        by (auto simp: refreshSettle_def split: option.splits promiseState.splits)
    next
      case True
      then obtain called where c: "map_of (promises s) p = Some (Pending called)" by blast
      obtain results where r: "promiseAll (refreshTasks called outcomes) = Inr results"
        using refreshTasks_Inr by blast
      have s': "refreshSettle outcomes now s =
            (applyResults results s)\<lparr>lastRefreshAt := now,
               promises := AList.update p Fulfilled (promises s)\<rparr>"
        using Some c r by (simp add: refreshSettle_def)
      have pin: "p \<in> fst ` set (promises s)"
        using c by (metis domI dom_map_of_conv_image_fst)
      have keys: "map fst (AList.update p Fulfilled (promises s)) = map fst (promises s)"
        using pin by (rule update_existing_keys)
      have len: "length (AList.update p Fulfilled (promises s)) = length (promises s)"
        using keys by (metis length_map)
      have pend: "\<And>q c'. (q, Pending c') \<in> set (AList.update p Fulfilled (promises s)) \<Longrightarrow> q = p"
      proof -
        fix q c' assume m: "(q, Pending c') \<in> set (AList.update p Fulfilled (promises s))"
        have d: "distinct (map fst (AList.update p Fulfilled (promises s)))"
          using settle.IH keys by (simp add: promisesOk_def)
        from m d have "map_of (AList.update p Fulfilled (promises s)) q = Some (Pending c')"
          by simp
        then have "q \<noteq> p \<Longrightarrow> map_of (promises s) q = Some (Pending c')"
          by (simp add: update_conv')
        then have "q \<noteq> p \<Longrightarrow> (q, Pending c') \<in> set (promises s)"
          by (simp add: map_of_SomeD)
        with settle.IH Some show "q = p" by (auto simp: promisesOk_def)
      qed
      show ?thesis
        using settle.IH Some pend
        by (auto simp: s' promisesOk_def keys len applyResults_refresh_fields)
    qed
  qed
next
  case (resume s p)
  show ?case
  proof (cases "map_of (promises s) p = Some Fulfilled")
    case False
    with resume show ?thesis
      by (auto simp: refreshResume_def split: option.splits promiseState.splits)
  next
    case True
    have "\<And>q c. (q, Pending c) \<in> set (promises s) \<Longrightarrow> False"
    proof -
      fix q c assume m: "(q, Pending c) \<in> set (promises s)"
      with resume have "q = p" by (auto simp: promisesOk_def)
      moreover have "map_of (promises s) q = Some (Pending c)"
        using m promisesOk_distinct[OF resume.IH] by simp
      ultimately show False using True by simp
    qed
    with resume True show ?thesis
      by (auto simp: refreshResume_def promisesOk_def)
  qed
qed

subsection \<open>The sample states, evaluated\<close>

lemma firstStart:
  "refreshModels noKeys False 1700000000000 emptyRegistry =
     (Started 0, emptyRegistry\<lparr>currentRefresh := Some 0, promises := [(0, Pending [''ollama''])]\<rparr>)"
  by (simp add: refreshModels_def Let_def emptyRegistry_def fetchers_def checkProviderAPIKey_def
      noKeys_def providerKeyCheckers_def hasValidKey_def)

lemma allThrow_results:
  "promiseAll (refreshTasks called allThrow) = Inr (map (\<lambda>p. (p, [])) fetchers)"
  by (simp add: refreshTasks_def allThrow_def providerTask_def providerTry_def fetchers_def)

lemma applyResults_empty: "applyResults (map (\<lambda>p. (p, [])) ps) s = s"
  by (induction ps) (simp_all add: applyResults_def applyResult_def)

lemma afterFirstRefresh_eq:
  "afterFirstRefresh =
     emptyRegistry\<lparr>lastRefreshAt := 1700000000500, promises := [(0, Fulfilled)]\<rparr>"
  by (simp add: afterFirstRefresh_def firstStart refreshSettle_def allThrow_results
      applyResults_empty refreshResume_def) (simp add: emptyRegistry_def)

lemma forcedInFlight_eq:
  "forcedInFlight =
     emptyRegistry\<lparr>lastRefreshAt := 1700000000500, currentRefresh := Some 1,
        promises := [(0, Fulfilled), (1, Pending [''ollama''])]\<rparr>"
  by (simp add: forcedInFlight_def afterFirstRefresh_eq refreshModels_def Let_def fetchers_def
      checkProviderAPIKey_def noKeys_def emptyRegistry_def
      providerKeyCheckers_def hasValidKey_def)

lemma reachable_forcedInFlight: "reachable noKeys forcedInFlight"
  unfolding forcedInFlight_def afterFirstRefresh_def
  by (intro reachable.refresh reachable.resume reachable.settle reachable.start)
     (simp add: firstStart refreshSettle_def allThrow_results applyResults_empty)

subsection \<open>Throttle and single flight\<close>

text \<open>
  Claim C2. A call with \<open>force = False\<close> made less than \<open>1000 * 60 * 5\<close> ms after
  \<open>lastRefreshAt\<close> returns at once and leaves the whole state as it was: no loader is
  called, and the catalog, the metadata and the refresh variables are untouched. A call
  with \<open>force = True\<close> starts a new round when no refresh is in flight: a new promise is
  created, the marker points at it, and the loaders of the providers that pass the
  credential check are called. When a refresh is in flight the forced call awaits it.
\<close>

theorem throttle_and_force:
  "(now - lastRefreshAt s < 1000 * 60 * 5 \<longrightarrow> refreshModels env False now s = (Returned, s)) \<and>
   (currentRefresh s = None \<longrightarrow>
      refreshModels env True now s =
        (Started (length (promises s)),
         s\<lparr>currentRefresh := Some (length (promises s)),
           promises := promises s @
             [(length (promises s), Pending (filter (checkProviderAPIKey env s) fetchers))]\<rparr>)) \<and>
   (\<forall>p. currentRefresh s = Some p \<longrightarrow> refreshModels env True now s = (Awaiting p, s))"
  by (simp add: refreshModels_def Let_def)

text \<open>
  Claim C1 as written fails: the throttle is tested before the in-flight marker. In the
  sample state a forced refresh is in flight and its promise is pending, yet a call with
  \<open>force = False\<close> one second later returns at once instead of awaiting it.
\<close>

theorem single_flight_counterexample:
  "reachable noKeys forcedInFlight \<and>
   currentRefresh forcedInFlight = Some 1 \<and>
   map_of (promises forcedInFlight) 1 = Some (Pending [''ollama'']) \<and>
   refreshModels noKeys False 1700000002000 forcedInFlight = (Returned, forcedInFlight) \<and>
   fst (refreshModels noKeys False 1700000002000 forcedInFlight) \<noteq> Awaiting 1 \<and>
   completed (fst (refreshModels noKeys False 1700000002000 forcedInFlight)) forcedInFlight \<and>
   \<not> completed (Awaiting 1) forcedInFlight"
proof -
  have r: "refreshModels noKeys False 1700000002000 forcedInFlight = (Returned, forcedInFlight)"
    by (simp add: refreshModels_def forcedInFlight_eq)
  show ?thesis
    using reachable_forcedInFlight
    by (simp add: r completed_def) (simp add: forcedInFlight_eq)
qed

text \<open>
  Claim C1, amended. While a refresh is in flight, a call to refresh changes nothing in
  the state, so no loader is called and no second promise is created. The call awaits the
  in-flight promise when it is forced or at least five minutes have passed since
  \<open>lastRefreshAt\<close>; otherwise it returns at once. At most one promise is pending, the
  one the marker points at, and a call awaiting it has not completed while it is pending.
\<close>

theorem single_flight:
  assumes "reachable env s" and "currentRefresh s = Some p"
  shows "refreshModels env force now s =
           (if \<not> force \<and> now - lastRefreshAt s < 1000 * 60 * 5 then Returned else Awaiting p, s) \<and>
         (\<forall>q c. (q, Pending c) \<in> set (promises s) \<longrightarrow> q = p) \<and>
         (\<forall>c. map_of (promises s) p = Some (Pending c) \<longrightarrow> \<not> completed (Awaiting p) s)"
proof -
  have "refreshModels env force now s =
           (if \<not> force \<and> now - lastRefreshAt s < 1000 * 60 * 5 then Returned else Awaiting p, s)"
    using assms(2) by (simp add: refreshModels_def)
  moreover have "\<forall>q c. (q, Pending c) \<in> set (promises s) \<longrightarrow> q = p"
    using reachable_promisesOk[OF assms(1)] assms(2) by (auto simp: promisesOk_def)
  moreover have "\<forall>c. map_of (promises s) p = Some (Pending c) \<longrightarrow> \<not> completed (Awaiting p) s"
    by (simp add: completed_def)
  ultimately show ?thesis by blast
qed

theorem single_flight_witness:
  "reachable noKeys forcedInFlight \<and> currentRefresh forcedInFlight = Some 1 \<and>
   refreshModels noKeys True 1700000002000 forcedInFlight = (Awaiting 1, forcedInFlight) \<and>
   refreshModels noKeys False 1800000000000 forcedInFlight = (Awaiting 1, forcedInFlight) \<and>
   refreshModels noKeys False 1700000002000 forcedInFlight = (Returned, forcedInFlight) \<and>
   \<not> completed (Awaiting 1) forcedInFlight"
proof -
  have c: "currentRefresh forcedInFlight = Some 1"
    by (simp add: forcedInFlight_eq)
  have l: "lastRefreshAt forcedInFlight = 1700000000500"
    by (simp add: forcedInFlight_eq)
  have m: "map_of (promises forcedInFlight) 1 = Some (Pending [''ollama''])"
    by (simp add: forcedInFlight_eq)
  show ?thesis
    using single_flight [OF reachable_forcedInFlight c, of True 1700000002000]
      single_flight [OF reachable_forcedInFlight c, of False 1800000000000]
      single_flight [OF reachable_forcedInFlight c, of False 1700000002000]
      reachable_forcedInFlight c l m
    by simp
qed

theorem throttle_and_force_witness:
  "1700000002000 - lastRefreshAt forcedInFlight < 1000 * 60 * 5 \<and>
   refreshModels noKeys False 1700000002000 forcedInFlight = (Returned, forcedInFlight) \<and>
   currentRefresh afterFirstRefresh = None \<and>
   refreshModels noKeys True 1700000001000 afterFirstRefresh = (Started 1, forcedInFlight) \<and>
   currentRefresh forcedInFlight = Some 1 \<and>
   refreshModels noKeys True 1700000002000 forcedInFlight = (Awaiting 1, forcedInFlight)"
proof -
  have a: "currentRefresh afterFirstRefresh = None"
    by (simp add: afterFirstRefresh_eq emptyRegistry_def)
  have n: "length (promises afterFirstRefresh) = 1"
    by (simp add: afterFirstRefresh_eq)
  have c: "currentRefresh forcedInFlight = Some 1"
    by (simp add: forcedInFlight_eq)
  have l: "lastRefreshAt forcedInFlight = 1700000000500"
    by (simp add: forcedInFlight_eq)
  have f: "snd (refreshModels noKeys True 1700000001000 afterFirstRefresh) = forcedInFlight"
    by (simp add: forcedInFlight_def)
  show ?thesis
    using throttle_and_force [of 1700000002000 forcedInFlight noKeys]
      throttle_and_force [of 1700000001000 afterFirstRefresh noKeys] a n c l f
    by (simp add: prod_eq_iff)
qed

subsection \<open>The tasks of a round and its completion\<close>

lemma providerTask_eq:
  "providerTask keyOk provider outcome =
     Inr (provider,
          if keyOk then (case outcome of LoaderThrew \<Rightarrow> [] | LoaderReturned ms \<Rightarrow> ms) else [])"
  by (cases outcome) (simp_all add: providerTask_def providerTry_def)

lemma promiseAll_map:
  "(\<And>x. x \<in> set xs \<Longrightarrow> f x = Inr (g x)) \<Longrightarrow> promiseAll (map f xs) = Inr (map g xs)"
  by (induction xs) simp_all

lemma refreshTasks_results:
  "promiseAll (refreshTasks called outcomes) =
     Inr (map (\<lambda>provider. (provider, settled called outcomes provider)) fetchers)"
  unfolding refreshTasks_def
  by (rule promiseAll_map) (simp add: providerTask_eq settled_def)

lemma refreshSettle_pending:
  assumes "currentRefresh s = Some p" and "map_of (promises s) p = Some (Pending called)"
  shows "refreshSettle outcomes now s =
           (applyResults (map (\<lambda>provider. (provider, settled called outcomes provider)) fetchers) s)
             \<lparr>lastRefreshAt := now, promises := AList.update p Fulfilled (promises s)\<rparr>"
  using assms by (simp add: refreshSettle_def refreshTasks_results)

text \<open>
  Claim C5. Whatever the loaders of the round did (returned models, returned none, or
  threw), the rest of the body sets \<open>lastRefreshAt\<close> to the current time and fulfils the
  promise; the call that started the round then clears the marker, and a later call that
  is forced, or made five minutes or more after that time, starts a new round.
\<close>

theorem refresh_completion:
  assumes "currentRefresh s = Some p" and "map_of (promises s) p = Some (Pending called)"
  shows "lastRefreshAt (refreshSettle outcomes now s) = now \<and>
         map_of (promises (refreshSettle outcomes now s)) p = Some Fulfilled \<and>
         currentRefresh (refreshResume p (refreshSettle outcomes now s)) = None \<and>
         lastRefreshAt (refreshResume p (refreshSettle outcomes now s)) = now \<and>
         (\<forall>force t. force \<or> 1000 * 60 * 5 \<le> t - now \<longrightarrow>
            (\<exists>q. fst (refreshModels env force t (refreshResume p (refreshSettle outcomes now s))) =
                    Started q))"
proof -
  let ?s1 = "refreshSettle outcomes now s"
  have l: "lastRefreshAt ?s1 = now"
    by (simp add: refreshSettle_pending[OF assms])
  have f: "map_of (promises ?s1) p = Some Fulfilled"
    by (simp add: refreshSettle_pending[OF assms] update_conv')
  have r: "refreshResume p ?s1 = ?s1\<lparr>currentRefresh := None\<rparr>"
    using f by (simp add: refreshResume_def)
  have "\<forall>force t. force \<or> 1000 * 60 * 5 \<le> t - now \<longrightarrow>
            (\<exists>q. fst (refreshModels env force t (refreshResume p ?s1)) = Started q)"
    using l by (auto simp: r refreshModels_def Let_def)
  with l f r show ?thesis by simp
qed

theorem refresh_completion_witness:
  "currentRefresh forcedInFlight = Some 1 \<and>
   map_of (promises forcedInFlight) 1 = Some (Pending [''ollama'']) \<and>
   lastRefreshAt (refreshSettle allThrow 1700000003000 forcedInFlight) = 1700000003000 \<and>
   map_of (promises (refreshSettle allThrow 1700000003000 forcedInFlight)) 1 = Some Fulfilled \<and>
   currentRefresh (refreshResume 1 (refreshSettle allThrow 1700000003000 forcedInFlight)) = None \<and>
   (\<exists>q. fst (refreshModels noKeys True 1700000003001
             (refreshResume 1 (refreshSettle allThrow 1700000003000 forcedInFlight))) = Started q)"
proof -
  have c: "currentRefresh forcedInFlight = Some 1"
    by (simp add: forcedInFlight_eq)
  have m: "map_of (promises forcedInFlight) 1 = Some (Pending [''ollama''])"
    by (simp add: forcedInFlight_eq)
  show ?thesis
    using refresh_completion [OF c m, of allThrow 1700000003000 noKeys] c m
    by simp
qed

lemma reachable_afterFirstRefresh: "reachable noKeys afterFirstRefresh"
  unfolding afterFirstRefresh_def
  by (intro reachable.resume reachable.settle reachable.refresh reachable.start)
     (simp add: firstStart refreshSettle_def allThrow_results applyResults_empty)

lemma started_state:
  assumes "promisesOk s0" and "refreshModels env force t0 s0 = (Started p, s)"
  shows "currentRefresh s = Some p \<and>
         map_of (promises s) p = Some (Pending (filter (checkProviderAPIKey env s0) fetchers)) \<and>
         allModels s = allModels s0 \<and> modelMetadata s = modelMetadata s0"
proof -
  have n: "currentRefresh s0 = None"
    using assms(2) by (auto simp: refreshModels_def Let_def split: if_splits option.splits)
  have p: "p = length (promises s0)"
    using assms(2) n by (auto simp: refreshModels_def Let_def split: if_splits)
  have s: "s = s0\<lparr>currentRefresh := Some p,
                 promises := promises s0 @ [(p, Pending (filter (checkProviderAPIKey env s0) fetchers))]\<rparr>"
    using assms(2) n by (auto simp: refreshModels_def Let_def split: if_splits)
  have "set (map fst (promises s0)) = {0..<length (promises s0)}"
    using assms(1) by (simp add: promisesOk_def)
  then have "p \<notin> fst ` set (promises s0)"
    using p by auto
  then have "map_of (promises s0) p = None"
    by (simp add: map_of_eq_None_iff)
  then show ?thesis
    by (simp add: s map_add_def)
qed

text \<open>
  Claim C4. In a round that has just been started, the loaders called are exactly those
  of the providers in the fetch table whose credential check passed, so a provider whose
  check fails has no loader call and no request. A provider whose check failed or whose
  loader threw hands an empty model list to the write phase. Whatever the loaders do,
  \<^verbatim>\<open>Promise.all\<close> yields a result for every provider of the table and the round's
  promise ends fulfilled, never rejected.
\<close>

theorem provider_failures_contained:
  assumes "reachable env s0" and "refreshModels env force t0 s0 = (Started p, s)"
  shows "map_of (promises s) p = Some (Pending (filter (checkProviderAPIKey env s0) fetchers)) \<and>
         (\<forall>outcomes now.
            promiseAll (refreshTasks (filter (checkProviderAPIKey env s0) fetchers) outcomes) =
              Inr (map (\<lambda>provider.
                     (provider, settled (filter (checkProviderAPIKey env s0) fetchers) outcomes provider))
                   fetchers) \<and>
            map_of (promises (refreshSettle outcomes now s)) p = Some Fulfilled) \<and>
         (\<forall>outcomes provider.
            \<not> checkProviderAPIKey env s0 provider \<or> outcomes provider = LoaderThrew \<longrightarrow>
            settled (filter (checkProviderAPIKey env s0) fetchers) outcomes provider = [])"
proof -
  let ?called = "filter (checkProviderAPIKey env s0) fetchers"
  have st: "currentRefresh s = Some p" "map_of (promises s) p = Some (Pending ?called)"
    using started_state[OF reachable_promisesOk[OF assms(1)] assms(2)] by simp_all
  have d: "map_of (promises (refreshSettle outcomes now s)) p = Some Fulfilled" for outcomes now
    by (simp add: refreshSettle_pending[OF st] update_conv')
  have e: "\<not> checkProviderAPIKey env s0 provider \<or> outcomes provider = LoaderThrew \<Longrightarrow>
            settled ?called outcomes provider = []" for outcomes provider
    by (auto simp: settled_def)
  show ?thesis
    using st(2) d e refreshTasks_results by simp
qed

theorem provider_failures_contained_witness:
  "reachable noKeys afterFirstRefresh \<and>
   refreshModels noKeys True 1700000001000 afterFirstRefresh = (Started 1, forcedInFlight) \<and>
   map_of (promises forcedInFlight) 1 =
     Some (Pending (filter (checkProviderAPIKey noKeys afterFirstRefresh) fetchers)) \<and>
   \<not> checkProviderAPIKey noKeys afterFirstRefresh ''openai'' \<and>
   settled (filter (checkProviderAPIKey noKeys afterFirstRefresh) fetchers) allThrow ''openai'' = [] \<and>
   allThrow ''ollama'' = LoaderThrew \<and>
   settled (filter (checkProviderAPIKey noKeys afterFirstRefresh) fetchers) allThrow ''ollama'' = [] \<and>
   map_of (promises (refreshSettle allThrow 1700000003000 forcedInFlight)) 1 = Some Fulfilled"
proof -
  have r: "reachable noKeys afterFirstRefresh"
    by (rule reachable_afterFirstRefresh)
  have f: "refreshModels noKeys True 1700000001000 afterFirstRefresh = (Started 1, forcedInFlight)"
    by (simp add: forcedInFlight_def refreshModels_def Let_def afterFirstRefresh_eq emptyRegistry_def)
  have k: "\<not> checkProviderAPIKey noKeys afterFirstRefresh ''openai''"
    by (simp add: checkProviderAPIKey_def afterFirstRefresh_eq emptyRegistry_def noKeys_def
        providerKeyCheckers_def hasValidKey_def)
  have t: "allThrow ''ollama'' = LoaderThrew"
    by (simp add: allThrow_def)
  show ?thesis
    using provider_failures_contained [OF r f] r f k t by simp
qed

subsection \<open>Registration\<close>

lemma resolveInstance_stores:
  "allModels (snd (resolveInstance provider nm options s)) = allModels s"
  "modelMetadata (snd (resolveInstance provider nm options s)) = modelMetadata s"
  "modelInstanceLookup (snd (resolveInstance provider nm options s)) = modelInstanceLookup s"
  by (simp_all add: resolveInstance_def split: option.splits)

lemma resolveInstance_None:
  "fst (resolveInstance provider nm options s) = None \<longleftrightarrow>
     model options = None \<and> providerFactories provider = None"
  by (simp add: resolveInstance_def split: option.splits)

lemma registerModel_noop:
  "fst (resolveInstance provider nm options s) = None \<Longrightarrow> registerModel provider nm options s = s"
  by (cases "resolveInstance provider nm options s") (simp add: registerModel_def)

lemma registerModel_allModels:
  "fst (resolveInstance provider nm options s) = Some h \<Longrightarrow>
   allModels (registerModel provider nm options s) =
     AList.update provider (AList.update nm h (bucketOf s provider)) (allModels s)"
  using resolveInstance_stores(1)[of provider nm options s]
  by (cases "resolveInstance provider nm options s") (simp add: registerModel_def bucketOf_def)

lemma registerModel_modelMetadata:
  "fst (resolveInstance provider nm options s) = Some h \<Longrightarrow>
   modelMetadata (registerModel provider nm options s) =
     AList.update (modelKey provider nm) (metadataFor provider nm options) (modelMetadata s)"
  using resolveInstance_stores(2)[of provider nm options s]
  by (cases "resolveInstance provider nm options s") (simp add: registerModel_def)

lemma lookupModel_registerModel:
  "fst (resolveInstance provider nm options s) = Some h \<Longrightarrow>
   lookupModel (registerModel provider nm options s) q k =
     (if q = provider \<and> k = nm then Some h else lookupModel s q k)"
  by (simp add: lookupModel_def registerModel_allModels update_conv' bucketOf_def
      split: option.splits)

lemma map_of_metadata_registerModel:
  "fst (resolveInstance provider nm options s) = Some h \<Longrightarrow>
   map_of (modelMetadata (registerModel provider nm options s)) key =
     (if key = modelKey provider nm then Some (metadataFor provider nm options)
      else map_of (modelMetadata s) key)"
  by (simp add: registerModel_modelMetadata update_conv')


lemma bucketOf_distinct:
  "distinctKeys s \<Longrightarrow> distinct (map fst (bucketOf s provider))"
  by (auto simp: distinctKeys_def bucketOf_def split: option.splits dest!: map_of_SomeD)

lemma set_update_subset:
  "set (AList.update k v al) \<subseteq> insert (k, v) (set al)"
  by (induction al) auto

lemma distinctKeys_registerModel:
  assumes "distinctKeys s"
  shows "distinctKeys (registerModel provider nm options s)"
proof (cases "fst (resolveInstance provider nm options s)")
  case None
  then show ?thesis using assms by (simp add: registerModel_noop)
next
  case (Some h)
  let ?b = "AList.update nm h (bucketOf s provider)"
  have b: "distinct (map fst ?b)"
    using bucketOf_distinct[OF assms] by (rule distinct_update)
  have "\<forall>e \<in> set (AList.update provider ?b (allModels s)). distinct (map fst (snd e))"
    using set_update_subset[of provider ?b "allModels s"] b assms
    by (auto simp: distinctKeys_def)
  then show ?thesis
    using assms
    by (simp add: distinctKeys_def registerModel_allModels[OF Some]
        registerModel_modelMetadata[OF Some] distinct_update)
qed





subsection \<open>The resolver\<close>

lemma nextObject_registerModel_supplied:
  "model options = Some h \<Longrightarrow> nextObject (registerModel provider nm options s) = nextObject s"
  by (simp add: registerModel_def resolveInstance_def)

lemma nextObject_registerModel_withModel:
  "nextObject (registerModel provider nm (withModel h) s) = nextObject s"
  by (simp add: nextObject_registerModel_supplied withModel_def)

lemma resolveInstance_withModel:
  "fst (resolveInstance provider nm (withModel h) s) = Some h"
  by (simp add: resolveInstance_def withModel_def noOptions_def)

text \<open>
  On ordinary keys \<open>getModel\<close> returns a handle, in this order of cases. Without a
  reference it returns what \<open>fallbackModel\<close> returns. With a reference that the catalog
  holds it returns the stored handle and changes nothing, so a second call returns the
  same handle and builds none. With a reference the catalog lacks and a provider that has
  a factory it returns a newly allocated handle from that factory and stores it, with
  default metadata, under the reference. Otherwise it returns what \<open>fallbackModel\<close>
  returns: the handle stored under openai and gpt-4.1 if there is one, else a newly
  allocated handle of the openai factory, which is stored under that key. The
  \<^verbatim>\<open>throw\<close> that ends \<open>fallbackModel\<close> is its last branch, taken only if the factory
  table has no openai entry.
\<close>

lemma getModel_case_order:
  "getModel None s = fallbackModel s \<and>
   (lookupModel s (chatProvider r) (chatModel r) = Some h \<longrightarrow>
      getModel (Some r) s = (Inr h, s) \<and>
      getModel (Some r) (snd (getModel (Some r) s)) = (Inr h, s)) \<and>
   (lookupModel s (chatProvider r) (chatModel r) = None \<and>
      providerFactories (chatProvider r) = Some factory \<longrightarrow>
      fst (getModel (Some r) s) = Inr (factory (chatModel r) (nextObject s)) \<and>
      nextObject (snd (getModel (Some r) s)) = Suc (nextObject s) \<and>
      lookupModel (snd (getModel (Some r) s)) (chatProvider r) (chatModel r) =
        Some (factory (chatModel r) (nextObject s)) \<and>
      lookupMetadata (snd (getModel (Some r) s)) (chatProvider r) (chatModel r) =
        Some (metadataFor (chatProvider r) (chatModel r) noOptions)) \<and>
   (lookupModel s (chatProvider r) (chatModel r) = None \<and>
      providerFactories (chatProvider r) = None \<longrightarrow>
      getModel (Some r) s = fallbackModel s) \<and>
   (lookupModel s ''openai'' ''gpt-4.1'' = Some fh \<longrightarrow> fallbackModel s = (Inr fh, s)) \<and>
   (lookupModel s ''openai'' ''gpt-4.1'' = None \<longrightarrow>
      fst (fallbackModel s) = Inr (Handle (nextObject s) ''openai'' ''gpt-4.1'') \<and>
      nextObject (snd (fallbackModel s)) = Suc (nextObject s) \<and>
      lookupModel (snd (fallbackModel s)) ''openai'' ''gpt-4.1'' =
        Some (Handle (nextObject s) ''openai'' ''gpt-4.1'')) \<and>
   (\<exists>m. fst (getModel ref s) = Inr m)"
proof -
  have hit: "getModel (Some r) s = (Inr h, s)"
    if "lookupModel s (chatProvider r) (chatModel r) = Some h" for r h
    using that by (simp add: getModel_def)
  have build: "fst (getModel (Some r) s) = Inr (factory (chatModel r) (nextObject s)) \<and>
      nextObject (snd (getModel (Some r) s)) = Suc (nextObject s) \<and>
      lookupModel (snd (getModel (Some r) s)) (chatProvider r) (chatModel r) =
        Some (factory (chatModel r) (nextObject s)) \<and>
      lookupMetadata (snd (getModel (Some r) s)) (chatProvider r) (chatModel r) =
        Some (metadataFor (chatProvider r) (chatModel r) noOptions)"
    if "lookupModel s (chatProvider r) (chatModel r) = None"
      "providerFactories (chatProvider r) = Some factory" for r factory
  proof -
    let ?h = "factory (chatModel r) (nextObject s)"
    let ?s1 = "s\<lparr>nextObject := Suc (nextObject s)\<rparr>"
    have g: "getModel (Some r) s =
        (Inr ?h, registerModel (chatProvider r) (chatModel r) (withModel ?h) ?s1)"
      using that by (simp add: getModel_def Let_def)
    have m: "metadataFor (chatProvider r) (chatModel r) (withModel ?h) =
             metadataFor (chatProvider r) (chatModel r) noOptions"
      by (simp add: metadataFor_def withModel_def)
    show ?thesis
      by (simp add: g lookupModel_registerModel[OF resolveInstance_withModel]
          lookupMetadata_def map_of_metadata_registerModel[OF resolveInstance_withModel] m
          nextObject_registerModel_withModel)
  qed
  have miss: "getModel (Some r) s = fallbackModel s"
    if "lookupModel s (chatProvider r) (chatModel r) = None"
      "providerFactories (chatProvider r) = None" for r
    using that by (simp add: getModel_def)
  have fhit: "fallbackModel s = (Inr h, s)" if "lookupModel s ''openai'' ''gpt-4.1'' = Some h" for h
    using that by (simp add: fallbackModel_def fallbackProvider_def fallbackModelName_def)
  have fbuild: "fst (fallbackModel s) = Inr (Handle (nextObject s) ''openai'' ''gpt-4.1'') \<and>
      nextObject (snd (fallbackModel s)) = Suc (nextObject s) \<and>
      lookupModel (snd (fallbackModel s)) ''openai'' ''gpt-4.1'' =
        Some (Handle (nextObject s) ''openai'' ''gpt-4.1'')"
    if "lookupModel s ''openai'' ''gpt-4.1'' = None"
  proof -
    let ?h = "Handle (nextObject s) ''openai'' ''gpt-4.1''"
    let ?s1 = "s\<lparr>nextObject := Suc (nextObject s)\<rparr>"
    have f: "providerFactories ''openai'' = Some (sdk ''openai'')"
      by (simp add: providerFactories_def)
    have g: "fallbackModel s = (Inr ?h, registerModel ''openai'' ''gpt-4.1'' (withModel ?h) ?s1)"
      using that by (simp add: fallbackModel_def fallbackProvider_def fallbackModelName_def f
          Let_def sdk_def)
    show ?thesis
      by (simp add: g lookupModel_registerModel[OF resolveInstance_withModel]
          nextObject_registerModel_withModel)
  qed
  have none: "getModel None s = fallbackModel s"
    by (simp add: getModel_def)
  have ftotal: "\<exists>m. fst (fallbackModel s) = Inr m"
    using fhit fbuild by (cases "lookupModel s ''openai'' ''gpt-4.1''") auto
  have total: "\<exists>m. fst (getModel ref s) = Inr m"
  proof (cases ref)
    case None
    then show ?thesis using none ftotal by simp
  next
    case (Some r')
    show ?thesis
    proof (cases "lookupModel s (chatProvider r') (chatModel r')")
      case (Some h')
      then show ?thesis using hit[of r' h'] \<open>ref = Some r'\<close> by simp
    next
      case None
      show ?thesis
      proof (cases "providerFactories (chatProvider r')")
        case (Some f')
        then show ?thesis using build[OF None Some] \<open>ref = Some r'\<close> by simp
      next
        case pn: None
        then show ?thesis using miss[OF None pn] ftotal \<open>ref = Some r'\<close> by simp
      qed
    qed
  qed
  show ?thesis
    using none hit[of r h] build[of r factory] miss[of r] fhit[of fh] fbuild total
    by simp
qed

lemma getModel_case_order_sample:
  "lookupModel (registerModel ''openai'' ''gpt-4.1'' noOptions emptyRegistry) ''openai'' ''gpt-4.1'' =
     Some (Handle 0 ''openai'' ''gpt-4.1'') \<and>
   getModel (Some \<lparr>chatProvider = ''openai'', chatModel = ''gpt-4.1''\<rparr>)
       (registerModel ''openai'' ''gpt-4.1'' noOptions emptyRegistry) =
     (Inr (Handle 0 ''openai'' ''gpt-4.1''), registerModel ''openai'' ''gpt-4.1'' noOptions emptyRegistry) \<and>
   fallbackModel (registerModel ''openai'' ''gpt-4.1'' noOptions emptyRegistry) =
     (Inr (Handle 0 ''openai'' ''gpt-4.1''), registerModel ''openai'' ''gpt-4.1'' noOptions emptyRegistry) \<and>
   lookupModel emptyRegistry ''ollama'' ''llama3'' = None \<and>
   providerFactories ''ollama'' = Some (sdk ''ollamaClient'') \<and>
   fst (getModel (Some \<lparr>chatProvider = ''ollama'', chatModel = ''llama3''\<rparr>) emptyRegistry) =
     Inr (Handle 0 ''ollamaClient'' ''llama3'') \<and>
   lookupModel (snd (getModel (Some \<lparr>chatProvider = ''ollama'', chatModel = ''llama3''\<rparr>) emptyRegistry))
       ''ollama'' ''llama3'' = Some (Handle 0 ''ollamaClient'' ''llama3'') \<and>
   lookupModel emptyRegistry ''unknown-provider'' ''x'' = None \<and>
   providerFactories ''unknown-provider'' = None \<and>
   getModel (Some \<lparr>chatProvider = ''unknown-provider'', chatModel = ''x''\<rparr>) emptyRegistry =
     fallbackModel emptyRegistry \<and>
   lookupModel emptyRegistry ''openai'' ''gpt-4.1'' = None \<and>
   fst (fallbackModel emptyRegistry) = Inr (Handle 0 ''openai'' ''gpt-4.1'')"
proof -
  let ?s = "registerModel ''openai'' ''gpt-4.1'' noOptions emptyRegistry"
  have r: "fst (resolveInstance ''openai'' ''gpt-4.1'' noOptions emptyRegistry) =
             Some (Handle 0 ''openai'' ''gpt-4.1'')"
    by (simp add: resolveInstance_def noOptions_def providerFactories_def sdk_def emptyRegistry_def)
  have a: "lookupModel ?s ''openai'' ''gpt-4.1'' = Some (Handle 0 ''openai'' ''gpt-4.1'')"
    by (simp add: lookupModel_registerModel[OF r])
  have e: "lookupModel emptyRegistry p n = None" for p n
    by (simp add: lookupModel_def emptyRegistry_def)
  have f: "providerFactories ''ollama'' = Some (sdk ''ollamaClient'')"
    "providerFactories ''unknown-provider'' = None"
    by (simp_all add: providerFactories_def)
  have n: "nextObject emptyRegistry = 0"
    by (simp add: emptyRegistry_def)
  show ?thesis
    using getModel_case_order [where s = ?s and r = "\<lparr>chatProvider = ''openai'', chatModel = ''gpt-4.1''\<rparr>"
        and h = "Handle 0 ''openai'' ''gpt-4.1''" and fh = "Handle 0 ''openai'' ''gpt-4.1''"]
      getModel_case_order [where s = emptyRegistry
        and r = "\<lparr>chatProvider = ''ollama'', chatModel = ''llama3''\<rparr>"
        and factory = "sdk ''ollamaClient''"]
      getModel_case_order [where s = emptyRegistry
        and r = "\<lparr>chatProvider = ''unknown-provider'', chatModel = ''x''\<rparr>"]
      a e f n
    by (simp add: sdk_def)
qed

subsection \<open>Invariants of the reachable states\<close>

lemma clearProvider_allModels:
  "allModels (clearProvider provider s) = AList.delete provider (allModels s)"
  by (simp add: clearProvider_def Let_def)

lemma refreshModels_stores:
  "allModels (snd (refreshModels env force now s)) = allModels s"
  "modelMetadata (snd (refreshModels env force now s)) = modelMetadata s"
  by (simp_all add: refreshModels_def Let_def split: option.splits)

lemma refreshResume_stores:
  "allModels (refreshResume p s) = allModels s"
  "modelMetadata (refreshResume p s) = modelMetadata s"
  by (simp_all add: refreshResume_def split: option.splits promiseState.splits)

text \<open>
  A property of the two stores that registration and clearing preserve holds in every
  reachable state.
\<close>

lemma reachable_stores_invariant:
  assumes r: "reachable env s"
    and init: "P emptyRegistry"
    and reg: "\<And>s provider nm options. P s \<Longrightarrow> P (registerModel provider nm options s)"
    and clr: "\<And>s provider. P s \<Longrightarrow> P (clearProvider provider s)"
    and frame: "\<And>s s'. allModels s' = allModels s \<Longrightarrow> modelMetadata s' = modelMetadata s \<Longrightarrow>
                  P s \<Longrightarrow> P s'"
  shows "P s"
  using r
proof (induction rule: reachable.induct)
  case start
  show ?case by (rule init)
next
  case (register s provider nm options)
  then show ?case by (simp add: reg)
next
  case (clear s provider)
  then show ?case by (simp add: clr)
next
  case (explicitKey s provider b)
  then show ?case by (auto intro: frame[of _ s])
next
  case (resolve s ref)
  have alloc: "P (s\<lparr>nextObject := Suc (nextObject s)\<rparr>)"
    using resolve.IH by (auto intro: frame[of _ s])
  have fb: "P (snd (fallbackModel s))"
    using resolve.IH alloc
    by (auto simp: fallbackModel_def Let_def reg split: option.splits)
  show ?case
    using resolve.IH alloc fb
    by (auto simp: getModel_def Let_def reg split: option.splits)
next
  case (refresh s force now)
  then show ?case by (auto intro: frame[of _ s] simp: refreshModels_stores)
next
  case (settle s outcomes now)
  have regAll: "P (fold (\<lambda>entry. registerModel provider (name entry) (refreshOptions entry)) ms s1)"
    if "P s1" for provider ms s1
    using that by (induction ms arbitrary: s1) (simp_all add: reg)
  have one: "P (applyResult r s1)" if "P s1" for r s1
    using that by (cases r) (simp add: applyResult_def regAll clr)
  have all: "P (applyResults rs s1)" if "P s1" for rs s1
    using that unfolding applyResults_def by (induction rs arbitrary: s1) (simp_all add: one)
  show ?case
  proof (cases "\<exists>p called. currentRefresh s = Some p \<and> map_of (promises s) p = Some (Pending called)")
    case True
    then obtain p called where
      c: "currentRefresh s = Some p" "map_of (promises s) p = Some (Pending called)" by blast
    show ?thesis
      unfolding refreshSettle_pending[OF c]
      by (rule frame[OF _ _ all[OF settle.IH]]) simp_all
  next
    case False
    then have "refreshSettle outcomes now s = s"
      by (auto simp: refreshSettle_def split: option.splits promiseState.splits)
    with settle.IH show ?thesis by simp
  qed
next
  case (resume s p)
  then show ?case by (auto intro: frame[of _ s] simp: refreshResume_stores)
qed

lemma nonEmptyBuckets_registerModel:
  assumes "nonEmptyBuckets s"
  shows "nonEmptyBuckets (registerModel provider nm options s)"
proof (cases "fst (resolveInstance provider nm options s)")
  case None
  then show ?thesis using assms by (simp add: registerModel_noop)
next
  case (Some h)
  show ?thesis
    using assms set_update_subset[of provider "AList.update nm h (bucketOf s provider)" "allModels s"]
    by (auto simp: nonEmptyBuckets_def registerModel_allModels[OF Some])
qed

lemma nonEmptyBuckets_clearProvider:
  "nonEmptyBuckets s \<Longrightarrow> nonEmptyBuckets (clearProvider provider s)"
  by (auto simp: nonEmptyBuckets_def clearProvider_allModels AList.delete_eq)

lemma reachable_nonEmptyBuckets: "reachable env s \<Longrightarrow> nonEmptyBuckets s"
proof (erule reachable_stores_invariant)
  show "nonEmptyBuckets emptyRegistry"
    by (simp add: nonEmptyBuckets_def emptyRegistry_def)
next
  fix s s' :: registry
  assume "allModels s' = allModels s" and "nonEmptyBuckets s"
  then show "nonEmptyBuckets s'" by (simp add: nonEmptyBuckets_def)
qed (simp_all add: nonEmptyBuckets_registerModel nonEmptyBuckets_clearProvider)

lemma set_insertBy: "set (insertBy le x xs) = insert x (set xs)"
  by (induction xs) auto

lemma set_sortBy: "set (sortBy le xs) = set xs"
  unfolding sortBy_def by (induction xs) (simp_all add: set_insertBy)

lemma insertBy_not_Nil: "insertBy le x xs \<noteq> []"
  by (cases xs) simp_all

lemma sortBy_Nil_iff: "sortBy le xs = [] \<longleftrightarrow> xs = []"
  unfolding sortBy_def by (cases xs) (simp_all add: insertBy_not_Nil)

text \<open>
  On ordinary keys, in every reachable state each provider key of the catalog has a bucket with
  at least one model, so every provider that the catalog summary lists has a non-empty
  model list. \<open>clearProvider\<close> removes the provider's key from the catalog altogether, a
  registration that stores a handle leaves the name in the provider's bucket, and a
  registration that stores nothing creates no bucket.
\<close>

lemma buckets_never_empty:
  assumes "reachable env s"
  shows "(\<forall>e \<in> set (allModels s). snd e \<noteq> []) \<and>
         (\<forall>info \<in> set (buildModelsInfo labelLe providerLe env s). models info \<noteq> []) \<and>
         provider \<notin> fst ` set (allModels (clearProvider provider s)) \<and>
         (fst (resolveInstance provider nm options s) \<noteq> None \<longrightarrow>
            nm \<in> fst ` set (bucketOf (registerModel provider nm options s) provider)) \<and>
         (fst (resolveInstance provider nm options s) = None \<longrightarrow>
            allModels (registerModel provider nm options s) = allModels s)"
proof -
  have n: "\<forall>e \<in> set (allModels s). snd e \<noteq> []"
    using reachable_nonEmptyBuckets[OF assms] by (simp add: nonEmptyBuckets_def)
  have i: "\<forall>info \<in> set (buildModelsInfo labelLe providerLe env s). models info \<noteq> []"
    using n by (auto simp: buildModelsInfo_def set_sortBy sortBy_Nil_iff)
  have c: "provider \<notin> fst ` set (allModels (clearProvider provider s))"
    by (simp add: clearProvider_allModels delete_notin_dom)
  have r: "nm \<in> fst ` set (bucketOf (registerModel provider nm options s) provider)"
    if "fst (resolveInstance provider nm options s) \<noteq> None"
  proof -
    from that obtain h where h: "fst (resolveInstance provider nm options s) = Some h" by auto
    show ?thesis
      by (simp add: bucketOf_def registerModel_allModels[OF h] update_conv' dom_update)
  qed
  from n i c r show ?thesis by (simp add: registerModel_noop)
qed

lemma ollamaRegistered:
  "registerModel ''ollama'' ''gemma3:1b'' noOptions emptyRegistry =
     emptyRegistry
       \<lparr>allModels := [(''ollama'', [(''gemma3:1b'', Handle 0 ''ollamaClient'' ''gemma3:1b'')])],
        modelMetadata :=
          [(''ollama::gemma3:1b'',
            \<lparr>metaDisplayName = None, metaIsToolCallUnsupported = True,
             metaIsImageInputUnsupported = True\<rparr>)],
        modelInstanceLookup := [(Handle 0 ''ollamaClient'' ''gemma3:1b'', ''ollama::gemma3:1b'')],
        nextObject := 1\<rparr>"
  by (simp add: registerModel_def resolveInstance_def noOptions_def providerFactories_def sdk_def
      emptyRegistry_def bucketOf_def metadataFor_def modelKey_def fallbackToolUnsupportedKeys_def
      imageInputSupportedProviders_def)

lemma buckets_never_empty_sample:
  "reachable noKeys (registerModel ''ollama'' ''gemma3:1b'' noOptions emptyRegistry) \<and>
   allModels (registerModel ''ollama'' ''gemma3:1b'' noOptions emptyRegistry) =
     [(''ollama'', [(''gemma3:1b'', Handle 0 ''ollamaClient'' ''gemma3:1b'')])] \<and>
   map (\<lambda>info. map infoName (models info))
     (buildModelsInfo (\<lambda>a b. True) (\<lambda>a b. True) noKeys
        (registerModel ''ollama'' ''gemma3:1b'' noOptions emptyRegistry)) = [[''gemma3:1b'']] \<and>
   allModels (clearProvider ''ollama''
        (registerModel ''ollama'' ''gemma3:1b'' noOptions emptyRegistry)) = []"
proof -
  let ?s = "registerModel ''ollama'' ''gemma3:1b'' noOptions emptyRegistry"
  have r: "reachable noKeys ?s"
    by (intro reachable.register reachable.start)
  have b: "map (\<lambda>info. map infoName (models info))
     (buildModelsInfo (\<lambda>a b. True) (\<lambda>a b. True) noKeys ?s) = [[''gemma3:1b'']]"
    by (simp add: ollamaRegistered buildModelsInfo_def sortBy_def modelInfo_def)
  have c: "allModels (clearProvider ''ollama'' ?s) = []"
    by (simp add: clearProvider_allModels ollamaRegistered)
  show ?thesis
    using buckets_never_empty [OF r, of "\<lambda>a b. True" "\<lambda>a b. True"] r b c
    by (simp add: ollamaRegistered)
qed

subsection \<open>The write phase of a refresh\<close>

lemma map_of_fold_delete:
  "map_of (fold AList.delete ks al) k = (if k \<in> set ks then None else map_of al k)"
  by (induction ks arbitrary: al) (simp_all add: delete_conv')

lemma clearProvider_metadata:
  "map_of (modelMetadata (clearProvider provider s)) key =
     (if startsWith key (provider @ ''::'') then None else map_of (modelMetadata s) key)"
proof -
  have "map_of (modelMetadata s) key = None" if "key \<notin> fst ` set (modelMetadata s)"
    using that by (simp add: map_of_eq_None_iff)
  then show ?thesis
    by (auto simp: clearProvider_def Let_def map_of_fold_delete)
qed

lemma clearProvider_catalog:
  "map_of (allModels (clearProvider provider s)) q =
     (if q = provider then None else map_of (allModels s) q)"
  by (simp add: clearProvider_allModels delete_conv')

lemma clearProvider_nextObject: "nextObject (clearProvider provider s) = nextObject s"
  by (simp add: clearProvider_def Let_def)

lemma registerModel_catalog_other:
  "q \<noteq> provider \<Longrightarrow>
   map_of (allModels (registerModel provider nm options s)) q = map_of (allModels s) q"
  by (cases "fst (resolveInstance provider nm options s)")
     (simp_all add: registerModel_noop registerModel_allModels update_conv')

lemma registerModel_metadata_other:
  "key \<noteq> modelKey provider nm \<Longrightarrow>
   map_of (modelMetadata (registerModel provider nm options s)) key = map_of (modelMetadata s) key"
  by (cases "fst (resolveInstance provider nm options s)")
     (simp_all add: registerModel_noop map_of_metadata_registerModel)

lemma registerModel_nextObject_mono:
  "nextObject s \<le> nextObject (registerModel provider nm options s)"
  by (simp add: registerModel_def resolveInstance_def split: option.splits)

lemma registerAll_nextObject_mono: "nextObject s \<le> nextObject (registerAll provider ms s)"
proof (induction ms arbitrary: s)
  case Nil
  then show ?case by simp
next
  case (Cons e ms)
  have "nextObject s \<le> nextObject (registerModel provider (name e) (refreshOptions e) s)"
    by (rule registerModel_nextObject_mono)
  also have "\<dots> \<le> nextObject (registerAll provider ms
                         (registerModel provider (name e) (refreshOptions e) s))"
    by (rule Cons.IH)
  finally show ?case by simp
qed

lemma applyResult_nextObject_mono: "nextObject s \<le> nextObject (applyResult r s)"
proof (cases r)
  case (Pair provider ms)
  have "nextObject s \<le> nextObject (registerAll provider ms (clearProvider provider s))"
    using registerAll_nextObject_mono[of "clearProvider provider s" provider ms]
    by (simp add: clearProvider_nextObject)
  then show ?thesis by (simp add: Pair applyResult_def)
qed

lemma applyResults_nextObject_mono: "nextObject s \<le> nextObject (applyResults rs s)"
  unfolding applyResults_def
proof (induction rs arbitrary: s)
  case Nil
  then show ?case by simp
next
  case (Cons r rs)
  have "nextObject s \<le> nextObject (applyResult r s)"
    by (rule applyResult_nextObject_mono)
  also have "\<dots> \<le> nextObject (fold applyResult rs (applyResult r s))"
    by (rule Cons.IH)
  finally show ?case by simp
qed

text \<open>Two names without a colon that both lead the same key are the same name.\<close>

lemma takeWhile_provider:
  "CHR '':'' \<notin> set p \<Longrightarrow> takeWhile (\<lambda>c. c \<noteq> CHR '':'') (p @ ''::'' @ r) = p"
  by (induction p) auto

lemma startsWith_same_provider:
  assumes "CHR '':'' \<notin> set p" and "CHR '':'' \<notin> set q"
    and "startsWith key (p @ ''::'')" and "startsWith key (q @ ''::'')"
  shows "p = q"
proof -
  from assms(3) obtain r where r: "key = p @ ''::'' @ r"
    by (auto simp: startsWith_def prefix_def)
  from assms(4) obtain r' where r': "key = q @ ''::'' @ r'"
    by (auto simp: startsWith_def prefix_def)
  have "takeWhile (\<lambda>c. c \<noteq> CHR '':'') key = p"
    unfolding r using assms(1) by (rule takeWhile_provider)
  moreover have "takeWhile (\<lambda>c. c \<noteq> CHR '':'') key = q"
    unfolding r' using assms(2) by (rule takeWhile_provider)
  ultimately show ?thesis by simp
qed

lemma startsWith_modelKey: "startsWith (modelKey provider nm) (provider @ ''::'')"
  by (simp add: startsWith_def modelKey_def)

lemma fetchers_all_no_colon: "\<forall>provider \<in> set fetchers. CHR '':'' \<notin> set provider"
  by (simp add: fetchers_def)

lemma fetchers_all_factory:
  "\<forall>provider \<in> set fetchers. \<exists>c. providerFactories provider = Some (sdk c)"
  by (simp add: fetchers_def providerFactories_def) blast

lemma fetchers_factory: "provider \<in> set fetchers \<Longrightarrow> \<exists>c. providerFactories provider = Some (sdk c)"
  using fetchers_all_factory by blast

lemma distinct_fetchers: "distinct fetchers"
  by (simp add: fetchers_def)

lemma resolveInstance_refresh:
  "providerFactories provider = Some (sdk c) \<Longrightarrow>
   \<exists>m. fst (resolveInstance provider nm (refreshOptions entry) s) = Some (Handle (nextObject s) c m)"
  by (simp add: resolveInstance_def refreshOptions_def sdk_def)

lemma registerAll_catalog_other:
  "q \<noteq> provider \<Longrightarrow> map_of (allModels (registerAll provider ms s)) q = map_of (allModels s) q"
  by (induction ms arbitrary: s) (simp_all add: registerModel_catalog_other)

lemma registerAll_metadata_other:
  "\<not> startsWith key (provider @ ''::'') \<Longrightarrow>
   map_of (modelMetadata (registerAll provider ms s)) key = map_of (modelMetadata s) key"
proof (induction ms arbitrary: s)
  case Nil
  then show ?case by simp
next
  case (Cons e ms)
  have "key \<noteq> modelKey provider (name e)"
    using Cons.prems startsWith_modelKey by blast
  then show ?case
    using Cons by (simp add: registerModel_metadata_other)
qed

lemma registerAll_metadata:
  assumes "providerFactories provider = Some (sdk c)"
  shows "map_of (modelMetadata (registerAll provider ms s)) key =
     (case find (\<lambda>e. modelKey provider (name e) = key) (rev ms) of
        None \<Rightarrow> map_of (modelMetadata s) key
      | Some e \<Rightarrow> Some (metadataFor provider (name e) (refreshOptions e)))"
proof (induction ms rule: rev_induct)
  case Nil
  then show ?case by simp
next
  case (snoc e ms)
  obtain m where h: "fst (resolveInstance provider (name e) (refreshOptions e)
                        (registerAll provider ms s)) = Some (Handle (nextObject (registerAll provider ms s)) c m)"
    using resolveInstance_refresh[OF assms] by blast
  show ?case
    using snoc by (auto simp: map_of_metadata_registerModel[OF h])
qed

lemma registerAll_lookup_None:
  assumes "providerFactories provider = Some (sdk c)"
  shows "lookupModel (registerAll provider ms s) provider nm = None \<longleftrightarrow>
           nm \<notin> name ` set ms \<and> lookupModel s provider nm = None"
proof (induction ms rule: rev_induct)
  case Nil
  then show ?case by simp
next
  case (snoc e ms)
  obtain m where h: "fst (resolveInstance provider (name e) (refreshOptions e)
                        (registerAll provider ms s)) = Some (Handle (nextObject (registerAll provider ms s)) c m)"
    using resolveInstance_refresh[OF assms] by blast
  show ?case
    using snoc by (auto simp: lookupModel_registerModel[OF h])
qed

lemma registerAll_lookup_fresh:
  assumes "providerFactories provider = Some (sdk c)"
    and "lookupModel (registerAll provider ms s) provider nm = Some h"
    and "nm \<in> name ` set ms"
  shows "\<exists>i m. h = Handle i c m \<and> nextObject s \<le> i"
  using assms(2,3)
proof (induction ms arbitrary: h rule: rev_induct)
  case Nil
  then show ?case by simp
next
  case (snoc e ms)
  let ?S = "registerAll provider ms s"
  obtain m where r: "fst (resolveInstance provider (name e) (refreshOptions e) ?S) =
                       Some (Handle (nextObject ?S) c m)"
    using resolveInstance_refresh[OF assms(1)] by blast
  show ?case
  proof (cases "nm = name e")
    case True
    then have "h = Handle (nextObject ?S) c m"
      using snoc.prems(1) by (simp add: lookupModel_registerModel[OF r])
    then show ?thesis
      using registerAll_nextObject_mono[of s provider ms] by blast
  next
    case False
    then have "lookupModel ?S provider nm = Some h" "nm \<in> name ` set ms"
      using snoc.prems by (simp_all add: lookupModel_registerModel[OF r])
    then show ?thesis by (rule snoc.IH)
  qed
qed

lemma lookupModel_clearProvider: "lookupModel (clearProvider provider s) provider nm = None"
  by (simp add: lookupModel_def clearProvider_catalog)

text \<open>One provider's result, written to the stores.\<close>

lemma applyResult_replaces:
  assumes "providerFactories provider = Some (sdk c)" and "ms \<noteq> []"
  shows "(lookupModel (applyResult (provider, ms) s) provider nm \<noteq> None) = (nm \<in> name ` set ms)"
    and "lookupModel (applyResult (provider, ms) s) provider nm = Some h \<Longrightarrow>
           \<exists>i m. h = Handle i c m \<and> nextObject s \<le> i"
    and "startsWith key (provider @ ''::'') \<Longrightarrow>
           map_of (modelMetadata (applyResult (provider, ms) s)) key =
             (case find (\<lambda>e. modelKey provider (name e) = key) (rev ms) of
                None \<Rightarrow> None
              | Some e \<Rightarrow> Some (metadataFor provider (name e) (refreshOptions e)))"
proof -
  let ?s1 = "clearProvider provider s"
  have a: "applyResult (provider, ms) s = registerAll provider ms ?s1"
    using assms(2) by (simp add: applyResult_def)
  show l: "(lookupModel (applyResult (provider, ms) s) provider nm \<noteq> None) = (nm \<in> name ` set ms)"
    using registerAll_lookup_None[OF assms(1), of ms ?s1 nm]
    by (simp add: a lookupModel_clearProvider)
  show "\<exists>i m. h = Handle i c m \<and> nextObject s \<le> i"
    if "lookupModel (applyResult (provider, ms) s) provider nm = Some h"
  proof -
    have "nm \<in> name ` set ms" using l that by simp
    then show ?thesis
      using registerAll_lookup_fresh[OF assms(1), of ms ?s1 nm h] that
      by (simp add: a clearProvider_nextObject)
  qed
  show "map_of (modelMetadata (applyResult (provider, ms) s)) key =
             (case find (\<lambda>e. modelKey provider (name e) = key) (rev ms) of
                None \<Rightarrow> None
              | Some e \<Rightarrow> Some (metadataFor provider (name e) (refreshOptions e)))"
    if "startsWith key (provider @ ''::'')"
    using that
    by (simp add: a registerAll_metadata[OF assms(1)] clearProvider_metadata split: option.splits)
qed

lemma untouched_refl: "untouched provider s s"
  by (simp add: untouched_def)

lemma untouched_trans:
  "untouched provider s s1 \<Longrightarrow> untouched provider s1 s2 \<Longrightarrow> untouched provider s s2"
  by (simp add: untouched_def)

lemma applyResult_untouched:
  assumes "CHR '':'' \<notin> set provider" and "CHR '':'' \<notin> set q" and "q \<noteq> provider"
  shows "untouched provider s (applyResult (q, ms) s)"
proof (cases "ms = []")
  case True
  then show ?thesis by (simp add: applyResult_def untouched_def)
next
  case False
  have n: "\<not> startsWith key (q @ ''::'')" if "startsWith key (provider @ ''::'')" for key
    using startsWith_same_provider[OF assms(1,2) that] assms(3) by blast
  show ?thesis
    using False assms(3) n
    by (simp add: applyResult_def untouched_def registerAll_catalog_other clearProvider_catalog
        registerAll_metadata_other clearProvider_metadata)
qed

lemma applyResults_untouched:
  assumes "CHR '':'' \<notin> set provider"
    and "\<forall>r \<in> set rs. CHR '':'' \<notin> set (fst r) \<and> fst r \<noteq> provider"
  shows "untouched provider s (applyResults rs s)"
  using assms(2) unfolding applyResults_def
proof (induction rs arbitrary: s)
  case Nil
  then show ?case by (simp add: untouched_refl)
next
  case (Cons r rs)
  obtain q ms where r: "r = (q, ms)" by (cases r)
  have "untouched provider s (applyResult r s)"
    using Cons.prems assms(1) by (simp add: r applyResult_untouched)
  moreover have "untouched provider (applyResult r s) (fold applyResult rs (applyResult r s))"
    using Cons.prems by (intro Cons.IH) simp
  ultimately show ?case
    using untouched_trans by simp
qed

lemma applyResults_provider:
  assumes "distinct ps" and "\<forall>q \<in> set ps. CHR '':'' \<notin> set q" and "provider \<in> set ps"
  shows "\<exists>s1. nextObject s \<le> nextObject s1 \<and> untouched provider s s1 \<and>
              untouched provider (applyResult (provider, g provider) s1)
                (applyResults (map (\<lambda>q. (q, g q)) ps) s)"
proof -
  from assms(3) obtain xs ys where ps: "ps = xs @ provider # ys"
    by (auto dest: split_list)
  have nx: "provider \<notin> set xs" and ny: "provider \<notin> set ys"
    using assms(1) by (simp_all add: ps)
  have c: "CHR '':'' \<notin> set provider"
    using assms(2,3) by blast
  let ?f = "\<lambda>q. (q, g q)"
  let ?s1 = "applyResults (map ?f xs) s"
  let ?s2 = "applyResult (provider, g provider) ?s1"
  have split: "applyResults (map ?f ps) s = applyResults (map ?f ys) ?s2"
    by (simp add: ps applyResults_def)
  have u1: "untouched provider s ?s1"
    using assms(2) nx by (intro applyResults_untouched[OF c]) (auto simp: ps)
  have u2: "untouched provider ?s2 (applyResults (map ?f ys) ?s2)"
    using assms(2) ny by (intro applyResults_untouched[OF c]) (auto simp: ps)
  have "nextObject s \<le> nextObject ?s1"
    by (rule applyResults_nextObject_mono)
  with u1 u2 show ?thesis
    unfolding split by blast
qed

lemma untouched_lookupModel:
  "untouched provider s s' \<Longrightarrow> lookupModel s' provider nm = lookupModel s provider nm"
  by (simp add: untouched_def lookupModel_def)

lemma untouched_metadata:
  "untouched provider s s' \<Longrightarrow> startsWith key (provider @ ''::'') \<Longrightarrow>
   map_of (modelMetadata s') key = map_of (modelMetadata s) key"
  by (simp add: untouched_def)

lemma untouched_stores:
  "allModels s2 = allModels s1 \<Longrightarrow> modelMetadata s2 = modelMetadata s1 \<Longrightarrow>
   untouched provider s s1 \<Longrightarrow> untouched provider s s2"
  by (simp add: untouched_def)

text \<open>
  On ordinary keys: let \<open>s\<close> be the state in which the loaders of the pending round have
  settled, and take a provider of the fetch table. If it settled with no model, the
  provider's bucket and the metadata records under its keys are after the round exactly
  what they were in \<open>s\<close>. If it settled with at least one model, then after the round
  the names in its bucket are exactly the returned names, every handle in the bucket was
  built during the round, and the metadata under the provider's keys is exactly one
  record per returned name, computed from the last returned entry of that name.
\<close>

lemma refresh_replaces_or_keeps:
  assumes "currentRefresh s = Some p"
    and "map_of (promises s) p = Some (Pending called)"
    and "provider \<in> set fetchers"
  shows "(settled called outcomes provider = [] \<longrightarrow>
            untouched provider s (refreshSettle outcomes now s)) \<and>
         (settled called outcomes provider \<noteq> [] \<longrightarrow>
            (\<forall>nm. (lookupModel (refreshSettle outcomes now s) provider nm \<noteq> None) =
                     (nm \<in> name ` set (settled called outcomes provider))) \<and>
            (\<forall>nm h. lookupModel (refreshSettle outcomes now s) provider nm = Some h \<longrightarrow>
                     (\<exists>i c m. h = Handle i c m \<and> nextObject s \<le> i)) \<and>
            (\<forall>key. startsWith key (provider @ ''::'') \<longrightarrow>
               map_of (modelMetadata (refreshSettle outcomes now s)) key =
                 (case find (\<lambda>e. modelKey provider (name e) = key)
                         (rev (settled called outcomes provider)) of
                    None \<Rightarrow> None
                  | Some e \<Rightarrow> Some (metadataFor provider (name e) (refreshOptions e)))))"
proof -
  let ?g = "settled called outcomes"
  let ?final = "applyResults (map (\<lambda>q. (q, ?g q)) fetchers) s"
  let ?s' = "refreshSettle outcomes now s"
  have stores: "allModels ?s' = allModels ?final" "modelMetadata ?s' = modelMetadata ?final"
    by (simp_all add: refreshSettle_pending[OF assms(1,2)])
  obtain s1 where s1: "nextObject s \<le> nextObject s1" "untouched provider s s1"
      "untouched provider (applyResult (provider, ?g provider) s1) ?final"
    using applyResults_provider[OF distinct_fetchers fetchers_all_no_colon assms(3), of s ?g]
    by blast
  have u: "untouched provider (applyResult (provider, ?g provider) s1) ?s'"
    using stores s1(3) by (rule untouched_stores)
  obtain c where c: "providerFactories provider = Some (sdk c)"
    using fetchers_factory[OF assms(3)] by blast
  show ?thesis
  proof (cases "?g provider = []")
    case True
    then have "applyResult (provider, ?g provider) s1 = s1"
      by (simp add: applyResult_def)
    with u s1(2) have "untouched provider s ?s'"
      using untouched_trans by simp
    with True show ?thesis by simp
  next
    case False
    let ?s2 = "applyResult (provider, ?g provider) s1"
    have l: "lookupModel ?s' provider nm = lookupModel ?s2 provider nm" for nm
      using u by (rule untouched_lookupModel)
    have m: "map_of (modelMetadata ?s') key = map_of (modelMetadata ?s2) key"
      if "startsWith key (provider @ ''::'')" for key
      using u that by (rule untouched_metadata)
    have a: "(lookupModel ?s' provider nm \<noteq> None) = (nm \<in> name ` set (?g provider))" for nm
      unfolding l by (rule applyResult_replaces(1)[OF c False])
    have b: "\<exists>i c m. h = Handle i c m \<and> nextObject s \<le> i"
      if "lookupModel ?s' provider nm = Some h" for nm h
    proof -
      from that have "lookupModel ?s2 provider nm = Some h" by (simp add: l)
      from applyResult_replaces(2)[OF c False this]
      obtain i m where "h = Handle i c m" "nextObject s1 \<le> i" by blast
      with s1(1) show ?thesis by auto
    qed
    have d: "map_of (modelMetadata ?s') key =
                 (case find (\<lambda>e. modelKey provider (name e) = key) (rev (?g provider)) of
                    None \<Rightarrow> None
                  | Some e \<Rightarrow> Some (metadataFor provider (name e) (refreshOptions e)))"
      if "startsWith key (provider @ ''::'')" for key
      using that by (simp add: m applyResult_replaces(3)[OF c False])
    from False a b d show ?thesis by blast
  qed
qed

lemma twoProviders_fields:
  "currentRefresh twoProviders = None" "promises twoProviders = []"
  "providerHasExplicitKey twoProviders = []" "lastRefreshAt twoProviders = 0"
  by (simp_all add: twoProviders_def registerModel_refresh_fields emptyRegistry_def)

lemma twoProviders_called:
  "filter (checkProviderAPIKey openaiKey twoProviders) fetchers = [''openai'', ''ollama'']"
  by (simp add: fetchers_def checkProviderAPIKey_def twoProviders_fields providerKeyCheckers_def
      openaiKey_def hasValidKey_def)

lemma twoProvidersInFlight_fields:
  "currentRefresh twoProvidersInFlight = Some 0"
  "map_of (promises twoProvidersInFlight) 0 = Some (Pending [''openai'', ''ollama''])"
  by (simp_all add: twoProvidersInFlight_def refreshModels_def Let_def twoProviders_fields
      twoProviders_called)

lemma refresh_replaces_or_keeps_sample:
  "currentRefresh twoProvidersInFlight = Some 0 \<and>
   map_of (promises twoProvidersInFlight) 0 = Some (Pending [''openai'', ''ollama'']) \<and>
   ''openai'' \<in> set fetchers \<and> ''ollama'' \<in> set fetchers \<and>
   settled [''openai'', ''ollama''] openaiListed ''openai'' = [seed ''gpt-5'', seed ''o3''] \<and>
   settled [''openai'', ''ollama''] openaiListed ''ollama'' = [] \<and>
   lookupModel (refreshSettle openaiListed 1700000000500 twoProvidersInFlight) ''openai'' ''gpt-5'' \<noteq> None \<and>
   lookupModel (refreshSettle openaiListed 1700000000500 twoProvidersInFlight) ''openai'' ''o3'' \<noteq> None \<and>
   lookupModel (refreshSettle openaiListed 1700000000500 twoProvidersInFlight) ''openai'' ''gpt-4.1'' = None \<and>
   untouched ''ollama'' twoProvidersInFlight (refreshSettle openaiListed 1700000000500 twoProvidersInFlight) \<and>
   lookupModel (refreshSettle openaiListed 1700000000500 twoProvidersInFlight) ''ollama'' ''gemma3:1b'' =
     lookupModel twoProviders ''ollama'' ''gemma3:1b''"
proof -
  have f: "''openai'' \<in> set fetchers" "''ollama'' \<in> set fetchers"
    by (simp_all add: fetchers_def)
  have a: "settled [''openai'', ''ollama''] openaiListed ''openai'' = [seed ''gpt-5'', seed ''o3'']"
    "settled [''openai'', ''ollama''] openaiListed ''ollama'' = []"
    by (simp_all add: settled_def openaiListed_def)
  have n: "name (seed x) = x" for x
    by (simp add: seed_def)
  let ?s' = "refreshSettle openaiListed 1700000000500 twoProvidersInFlight"
  have k: "\<forall>nm. (lookupModel ?s' ''openai'' nm \<noteq> None) = (nm \<in> name ` set [seed ''gpt-5'', seed ''o3''])"
    using refresh_replaces_or_keeps [OF twoProvidersInFlight_fields f(1), of openaiListed 1700000000500]
      a(1) by simp
  have k1: "lookupModel ?s' ''openai'' ''gpt-5'' \<noteq> None"
    using k by (simp add: n)
  have k2: "lookupModel ?s' ''openai'' ''o3'' \<noteq> None"
    using k by (simp add: n)
  have "(lookupModel ?s' ''openai'' ''gpt-4.1'' \<noteq> None) =
          (''gpt-4.1'' \<in> name ` set [seed ''gpt-5'', seed ''o3''])"
    using k by (rule spec)
  then have k3: "lookupModel ?s' ''openai'' ''gpt-4.1'' = None"
    by (simp add: n)
  have u: "untouched ''ollama'' twoProvidersInFlight ?s'"
    using refresh_replaces_or_keeps [OF twoProvidersInFlight_fields f(2), of openaiListed 1700000000500]
      a(2) by simp
  have v: "lookupModel ?s' ''ollama'' ''gemma3:1b'' = lookupModel twoProviders ''ollama'' ''gemma3:1b''"
    using untouched_lookupModel[OF u]
    by (simp add: lookupModel_def twoProvidersInFlight_def refreshModels_stores)
  from twoProvidersInFlight_fields f a k1 k2 k3 u v show ?thesis
    by simp
qed

subsection \<open>Keys and the deny-list\<close>

lemma doubleColon_append: "doubleColon (xs @ ''::'' @ ys)"
proof (induction xs)
  case Nil
  then show ?case by simp
next
  case (Cons x xs)
  then show ?case by (cases xs) simp_all
qed

lemma takeWhile_first_colon:
  "CHR '':'' \<notin> set p1 \<Longrightarrow> takeWhile (\<lambda>c. c \<noteq> CHR '':'') (p1 @ CHR '':'' # rest) = p1"
  by (induction p1) auto

lemma modelKey_unique:
  assumes k: "modelKey p n = modelKey q m"
    and q: "CHR '':'' \<notin> set q"
    and d: "\<not> doubleColon m"
    and h: "\<not> prefix '':'' m"
  shows "p = q \<and> n = m"
proof (cases "CHR '':'' \<in> set p")
  case False
  have "takeWhile (\<lambda>c. c \<noteq> CHR '':'') (modelKey p n) = p"
    unfolding modelKey_def using False by (rule takeWhile_provider)
  moreover have "takeWhile (\<lambda>c. c \<noteq> CHR '':'') (modelKey q m) = q"
    unfolding modelKey_def using q by (rule takeWhile_provider)
  ultimately have "p = q" using k by simp
  with k show ?thesis by (simp add: modelKey_def)
next
  case True
  then obtain p1 p2 where p: "p = p1 @ CHR '':'' # p2" "CHR '':'' \<notin> set p1"
    by (auto dest: split_list_first)
  have "takeWhile (\<lambda>c. c \<noteq> CHR '':'') (modelKey p n) = p1"
    unfolding modelKey_def p(1) using p(2) by (simp add: takeWhile_first_colon)
  moreover have "takeWhile (\<lambda>c. c \<noteq> CHR '':'') (modelKey q m) = q"
    unfolding modelKey_def using q by (rule takeWhile_provider)
  ultimately have "p1 = q" using k by simp
  with k p(1) have e: "p2 @ ''::'' @ n = CHR '':'' # m"
    by (simp add: modelKey_def)
  show ?thesis
  proof (cases p2)
    case Nil
    with e have "m = CHR '':'' # n" by simp
    with h show ?thesis by simp
  next
    case (Cons c p2')
    with e have "m = p2' @ ''::'' @ n" by simp
    with d doubleColon_append show ?thesis by simp
  qed
qed

lemma modelKey_eq_iff:
  "CHR '':'' \<notin> set q \<Longrightarrow> \<not> doubleColon m \<Longrightarrow> \<not> prefix '':'' m \<Longrightarrow>
   (modelKey p n = modelKey q m) = (p = q \<and> n = m)"
  using modelKey_unique by blast

lemma deny_list_pairs:
  "(modelKey provider nm \<in> set fallbackToolUnsupportedKeys) =
     ((provider, nm) \<in>
        {(''openai'', ''o4-mini''), (''ollama'', ''gemma3:1b''), (''ollama'', ''gemma3:4b''),
         (''ollama'', ''gemma3:12b''), (''openRouter'', ''openai/gpt-oss-20b:free''),
         (''openRouter'', ''qwen/qwen3-8b:free''), (''openRouter'', ''qwen/qwen3-14b:free''),
         (''openRouter'', ''deepseek/deepseek-r1-0528:free''),
         (''openRouter'', ''google/gemini-2.0-flash-exp:free'')})"
  by (simp add: fallbackToolUnsupportedKeys_def modelKey_eq_iff)

text \<open>
  Claim C7. When a registration stores anything (a handle was supplied or the provider
  has a factory), the metadata record stored under the key has, for a tool-call flag that
  was not supplied, the value "the key \<^verbatim>\<open>provider::name\<close> is in the deny-list", which
  is the same as "the provider and the name are one of the nine listed pairs", and for
  an image-input flag that was not supplied, the value "the provider is not one of
  google, xai, openai, anthropic".
\<close>

theorem default_capability_flags:
  assumes "model options \<noteq> None \<or> providerFactories provider \<noteq> None"
  shows "\<exists>meta. lookupMetadata (registerModel provider nm options s) provider nm = Some meta \<and>
           (isToolCallUnsupported options = None \<longrightarrow>
              metaIsToolCallUnsupported meta = (modelKey provider nm \<in> set fallbackToolUnsupportedKeys) \<and>
              metaIsToolCallUnsupported meta =
                ((provider, nm) \<in>
                   {(''openai'', ''o4-mini''), (''ollama'', ''gemma3:1b''), (''ollama'', ''gemma3:4b''),
                    (''ollama'', ''gemma3:12b''), (''openRouter'', ''openai/gpt-oss-20b:free''),
                    (''openRouter'', ''qwen/qwen3-8b:free''), (''openRouter'', ''qwen/qwen3-14b:free''),
                    (''openRouter'', ''deepseek/deepseek-r1-0528:free''),
                    (''openRouter'', ''google/gemini-2.0-flash-exp:free'')})) \<and>
           (isImageInputUnsupported options = None \<longrightarrow>
              metaIsImageInputUnsupported meta =
                (provider \<notin> {''google'', ''xai'', ''openai'', ''anthropic''}))"
proof -
  from assms obtain h where h: "fst (resolveInstance provider nm options s) = Some h"
    using resolveInstance_None[of provider nm options s] by (metis option.exhaust)
  have "lookupMetadata (registerModel provider nm options s) provider nm =
          Some (metadataFor provider nm options)"
    by (simp add: lookupMetadata_def map_of_metadata_registerModel[OF h])
  moreover have "isToolCallUnsupported options = None \<longrightarrow>
      metaIsToolCallUnsupported (metadataFor provider nm options) =
        (modelKey provider nm \<in> set fallbackToolUnsupportedKeys)"
    by (simp add: metadataFor_def)
  moreover have "isImageInputUnsupported options = None \<longrightarrow>
      metaIsImageInputUnsupported (metadataFor provider nm options) =
        (provider \<notin> {''google'', ''xai'', ''openai'', ''anthropic''})"
    by (simp add: metadataFor_def imageInputSupportedProviders_def)
  ultimately show ?thesis
    unfolding deny_list_pairs [symmetric] by simp
qed

theorem default_capability_flags_witness:
  "providerFactories ''ollama'' = Some (sdk ''ollamaClient'') \<and>
   providerFactories ''openai'' = Some (sdk ''openai'') \<and>
   isToolCallUnsupported noOptions = None \<and> isImageInputUnsupported noOptions = None \<and>
   (\<exists>meta. lookupMetadata (registerModel ''ollama'' ''gemma3:1b'' noOptions emptyRegistry)
              ''ollama'' ''gemma3:1b'' = Some meta \<and>
           metaIsToolCallUnsupported meta \<and> metaIsImageInputUnsupported meta) \<and>
   (\<exists>meta. lookupMetadata (registerModel ''openai'' ''gpt-4.1'' noOptions emptyRegistry)
              ''openai'' ''gpt-4.1'' = Some meta \<and>
           \<not> metaIsToolCallUnsupported meta \<and> \<not> metaIsImageInputUnsupported meta)"
proof -
  have f: "providerFactories ''ollama'' = Some (sdk ''ollamaClient'')"
    "providerFactories ''openai'' = Some (sdk ''openai'')"
    by (simp_all add: providerFactories_def)
  have k: "modelKey ''ollama'' ''gemma3:1b'' \<in> set fallbackToolUnsupportedKeys"
    "modelKey ''openai'' ''gpt-4.1'' \<notin> set fallbackToolUnsupportedKeys"
    by (simp_all add: fallbackToolUnsupportedKeys_def modelKey_def)
  have n: "isToolCallUnsupported noOptions = None" "isImageInputUnsupported noOptions = None"
    by (simp_all add: noOptions_def)
  show ?thesis
    using default_capability_flags [of noOptions "''ollama''" "''gemma3:1b''" emptyRegistry]
      default_capability_flags [of noOptions "''openai''" "''gpt-4.1''" emptyRegistry] f k n
    by simp
qed

subsection \<open>The two stores in step\<close>

text \<open>
  Registration keeps the metadata complete. Clearing keeps it complete when no provider
  name involved has a colon; the next subsection shows what happens otherwise. Every
  reachable state holds each key once.
\<close>

lemma metadataComplete_registerModel:
  assumes "metadataComplete s"
  shows "metadataComplete (registerModel provider nm options s)"
proof (cases "fst (resolveInstance provider nm options s)")
  case None
  then show ?thesis using assms by (simp add: registerModel_noop)
next
  case (Some h)
  show ?thesis
    unfolding metadataComplete_def
  proof (intro allI impI)
    fix q k
    assume l: "lookupModel (registerModel provider nm options s) q k \<noteq> None"
    show "lookupMetadata (registerModel provider nm options s) q k \<noteq> None"
    proof (cases "modelKey q k = modelKey provider nm")
      case True
      then show ?thesis
        by (simp add: lookupMetadata_def map_of_metadata_registerModel[OF Some])
    next
      case False
      then have "\<not> (q = provider \<and> k = nm)" by auto
      with l have "lookupModel s q k \<noteq> None"
        by (simp add: lookupModel_registerModel[OF Some])
      with assms have "lookupMetadata s q k \<noteq> None"
        by (simp add: metadataComplete_def)
      with False show ?thesis
        by (simp add: lookupMetadata_def map_of_metadata_registerModel[OF Some])
    qed
  qed
qed

lemma metadataComplete_clearProvider:
  assumes "metadataComplete s" and "colonFree s" and "CHR '':'' \<notin> set provider"
  shows "metadataComplete (clearProvider provider s)"
  unfolding metadataComplete_def
proof (intro allI impI)
  fix q k
  assume l: "lookupModel (clearProvider provider s) q k \<noteq> None"
  then have ne: "q \<noteq> provider" and l0: "lookupModel s q k \<noteq> None"
    by (auto simp: lookupModel_def clearProvider_catalog split: if_splits)
  from l0 have "q \<in> fst ` set (allModels s)"
    by (auto simp: lookupModel_def split: option.splits dest!: map_of_SomeD intro: rev_image_eqI)
  with assms(2) have cq: "CHR '':'' \<notin> set q"
    by (auto simp: colonFree_def)
  have "\<not> startsWith (modelKey q k) (provider @ ''::'')"
    using startsWith_same_provider[OF assms(3) cq _ startsWith_modelKey] ne by blast
  moreover from assms(1) l0 have "lookupMetadata s q k \<noteq> None"
    by (simp add: metadataComplete_def)
  ultimately show "lookupMetadata (clearProvider provider s) q k \<noteq> None"
    by (simp add: lookupMetadata_def clearProvider_metadata)
qed

lemma distinct_fold_delete: "distinct (map fst al) \<Longrightarrow> distinct (map fst (fold AList.delete ks al))"
  by (induction ks arbitrary: al) (simp_all add: distinct_delete)

lemma distinctKeys_clearProvider:
  assumes "distinctKeys s"
  shows "distinctKeys (clearProvider provider s)"
proof -
  have "set (AList.delete provider (allModels s)) \<subseteq> set (allModels s)"
    by (auto simp: AList.delete_eq)
  then have "\<forall>e \<in> set (AList.delete provider (allModels s)). distinct (map fst (snd e))"
    using assms by (auto simp: distinctKeys_def)
  then show ?thesis
    using assms
    by (simp add: distinctKeys_def clearProvider_def Let_def distinct_delete distinct_fold_delete)
qed

lemma reachable_distinctKeys: "reachable env s \<Longrightarrow> distinctKeys s"
proof (erule reachable_stores_invariant)
  show "distinctKeys emptyRegistry"
    by (simp add: distinctKeys_def emptyRegistry_def)
next
  fix s s' :: registry
  assume "allModels s' = allModels s" and "modelMetadata s' = modelMetadata s" and "distinctKeys s"
  then show "distinctKeys s'" by (simp add: distinctKeys_def)
qed (simp_all add: distinctKeys_registerModel distinctKeys_clearProvider)

subsection \<open>Module initialisation and a provider name that extends another\<close>

lemma fold_preserves: "(\<And>x s. f (h x s) = f s) \<Longrightarrow> f (fold h xs s) = f s"
  by (induction xs arbitrary: s) simp_all

lemma loadSeed_refresh_fields:
  "promises (loadSeed s) = promises s"
  "currentRefresh (loadSeed s) = currentRefresh s"
  "lastRefreshAt (loadSeed s) = lastRefreshAt s"
  "providerHasExplicitKey (loadSeed s) = providerHasExplicitKey s"
  unfolding loadSeed_def
  by (rule fold_preserves, simp add: split_def, rule fold_preserves,
      simp add: registerModel_refresh_fields)+

lemma fold_reachable:
  "(\<And>x s. reachable env s \<Longrightarrow> reachable env (h x s)) \<Longrightarrow> reachable env s \<Longrightarrow>
   reachable env (fold h xs s)"
  by (induction xs arbitrary: s) simp_all

lemma reachable_moduleInit: "reachable env (moduleInit cfg)"
proof -
  have a: "reachable env (loadSeed emptyRegistry)"
    unfolding loadSeed_def
    by (intro fold_reachable reachable.start) (auto intro: fold_reachable reachable.register)
  have b: "reachable env (recordExplicitKeys cfg (loadSeed emptyRegistry))"
    unfolding recordExplicitKeys_def
    by (intro fold_reachable a) (auto intro: reachable.explicitKey)
  show ?thesis
    unfolding moduleInit_def registerCompatible_def
    by (intro fold_reachable b) (auto intro: fold_reachable reachable.register)
qed

lemma proxy_moduleInit:
  "moduleInit proxyConfig =
     registerModel ''openai::proxy'' ''m'' (compatibleOptions proxyConfig ''m'' (CompatibleModel 0 ''m''))
       (recordExplicitKeys proxyConfig (loadSeed emptyRegistry))"
  by (simp add: moduleInit_def registerCompatible_def proxyConfig_def)

lemma proxy_resolve:
  "fst (resolveInstance ''openai::proxy'' ''m''
          (compatibleOptions proxyConfig ''m'' (CompatibleModel 0 ''m'')) s) =
     Some (CompatibleModel 0 ''m'')"
  by (simp add: resolveInstance_def compatibleOptions_def)

lemma proxy_fields:
  "currentRefresh (moduleInit proxyConfig) = None"
  "promises (moduleInit proxyConfig) = []"
  "lastRefreshAt (moduleInit proxyConfig) = 0"
  "providerHasExplicitKey (moduleInit proxyConfig) = [(''openai::proxy'', True)]"
  unfolding proxy_moduleInit
  by (simp_all add: registerModel_refresh_fields recordExplicitKeys_def
      proxyConfig_def loadSeed_refresh_fields emptyRegistry_def hasValidKey_def)

lemma proxy_called:
  "filter (checkProviderAPIKey openaiKey (moduleInit proxyConfig)) fetchers = [''openai'', ''ollama'']"
  by (simp add: fetchers_def checkProviderAPIKey_def proxy_fields providerKeyCheckers_def
      openaiKey_def hasValidKey_def)

lemma proxyInFlight_eq:
  "proxyInFlight =
     (moduleInit proxyConfig)
       \<lparr>currentRefresh := Some 0, promises := [(0, Pending [''openai'', ''ollama''])]\<rparr>"
  by (simp add: proxyInFlight_def refreshModels_def Let_def proxy_fields proxy_called)

lemma proxy_results:
  "applyResults (map (\<lambda>q. (q, settled [''openai'', ''ollama''] openaiListed q)) fetchers) s =
     applyResult (''openai'', [seed ''gpt-5'', seed ''o3'']) s"
  by (simp add: fetchers_def settled_def openaiListed_def applyResults_def)
     (simp add: applyResult_def)

lemma proxyRefreshed_stores:
  "allModels proxyRefreshed =
     allModels (applyResult (''openai'', [seed ''gpt-5'', seed ''o3'']) proxyInFlight)"
  "modelMetadata proxyRefreshed =
     modelMetadata (applyResult (''openai'', [seed ''gpt-5'', seed ''o3'']) proxyInFlight)"
proof -
  have c: "currentRefresh proxyInFlight = Some 0"
    "map_of (promises proxyInFlight) 0 = Some (Pending [''openai'', ''ollama''])"
    by (simp_all add: proxyInFlight_eq)
  show "allModels proxyRefreshed =
     allModels (applyResult (''openai'', [seed ''gpt-5'', seed ''o3'']) proxyInFlight)"
    by (simp add: proxyRefreshed_def refreshResume_stores refreshSettle_pending[OF c] proxy_results)
  show "modelMetadata proxyRefreshed =
     modelMetadata (applyResult (''openai'', [seed ''gpt-5'', seed ''o3'']) proxyInFlight)"
    by (simp add: proxyRefreshed_def refreshResume_stores refreshSettle_pending[OF c] proxy_results)
qed

lemma reachable_proxyRefreshed: "reachable openaiKey proxyRefreshed"
  unfolding proxyRefreshed_def proxyInFlight_def
  by (intro reachable.resume reachable.settle reachable.refresh reachable_moduleInit)
     (simp add: proxyInFlight_eq[unfolded proxyInFlight_def] refreshSettle_def
        refreshTasks_results applyResults_refresh_fields)

text \<open>
  Claim C9 does not hold of the code. \<open>clearProvider\<close> deletes the bucket of exactly the
  provider it is given, but deletes every metadata record whose key starts with that
  provider's name and \<^verbatim>\<open>::\<close>, and the key of a model of provider
  \<^verbatim>\<open>openai::proxy\<close> starts so. After module initialisation with such a provider
  configured, its model has a handle and a metadata record; after a refresh in which the
  OpenAI listing returns models (or after \<open>clearProvider ''openai''\<close> alone) the handle
  is still in the catalog and the metadata record is gone.
\<close>

theorem metadata_orphaned_by_prefix:
  "reachable openaiKey proxyRefreshed \<and>
   lookupModel (moduleInit proxyConfig) ''openai::proxy'' ''m'' = Some (CompatibleModel 0 ''m'') \<and>
   lookupMetadata (moduleInit proxyConfig) ''openai::proxy'' ''m'' =
     Some \<lparr>metaDisplayName = Some ''m'', metaIsToolCallUnsupported = False,
           metaIsImageInputUnsupported = False\<rparr> \<and>
   lookupModel proxyRefreshed ''openai::proxy'' ''m'' = Some (CompatibleModel 0 ''m'') \<and>
   lookupMetadata proxyRefreshed ''openai::proxy'' ''m'' = None \<and>
   lookupModel (clearProvider ''openai'' (moduleInit proxyConfig)) ''openai::proxy'' ''m'' =
     Some (CompatibleModel 0 ''m'') \<and>
   lookupMetadata (clearProvider ''openai'' (moduleInit proxyConfig)) ''openai::proxy'' ''m'' = None"
proof -
  let ?init = "moduleInit proxyConfig"
  let ?ms = "[seed ''gpt-5'', seed ''o3'']"
  have a: "lookupModel ?init ''openai::proxy'' ''m'' = Some (CompatibleModel 0 ''m'')"
    unfolding proxy_moduleInit by (simp add: lookupModel_registerModel[OF proxy_resolve])
  have b: "lookupMetadata ?init ''openai::proxy'' ''m'' =
     Some \<lparr>metaDisplayName = Some ''m'', metaIsToolCallUnsupported = False,
           metaIsImageInputUnsupported = False\<rparr>"
  proof -
    have "lookupMetadata ?init ''openai::proxy'' ''m'' =
            Some (metadataFor ''openai::proxy'' ''m''
                    (compatibleOptions proxyConfig ''m'' (CompatibleModel 0 ''m'')))"
      unfolding proxy_moduleInit lookupMetadata_def
      by (simp add: map_of_metadata_registerModel[OF proxy_resolve])
    then show ?thesis
      by (simp add: metadataFor_def compatibleOptions_def proxyConfig_def)
  qed
  have k: "startsWith (modelKey ''openai::proxy'' ''m'') (''openai'' @ ''::'')"
    by (simp add: startsWith_def modelKey_def)
  have ne: "''openai::proxy'' \<noteq> ''openai''"
    by simp
  have f: "providerFactories ''openai'' = Some (sdk ''openai'')"
    by (simp add: providerFactories_def)
  have c: "lookupModel (clearProvider ''openai'' s) ''openai::proxy'' ''m'' =
             lookupModel s ''openai::proxy'' ''m''" for s
    by (simp add: lookupModel_def clearProvider_catalog)
  have d: "lookupMetadata (clearProvider ''openai'' s) ''openai::proxy'' ''m'' = None" for s
    using k by (simp add: lookupMetadata_def clearProvider_metadata)
  have e: "lookupModel (applyResult (''openai'', ?ms) s) ''openai::proxy'' ''m'' =
             lookupModel s ''openai::proxy'' ''m''" for s
    by (simp add: applyResult_def lookupModel_def registerModel_catalog_other
        clearProvider_catalog)
  have g: "map_of (modelMetadata (applyResult (''openai'', ?ms) s)) (modelKey ''openai::proxy'' ''m'') =
             None" for s
    using applyResult_replaces(3)[OF f _ k, of ?ms s]
    by (simp add: modelKey_def seed_def)
  have h: "lookupModel proxyRefreshed ''openai::proxy'' ''m'' = Some (CompatibleModel 0 ''m'')"
    using a e[of proxyInFlight]
    by (simp add: lookupModel_def proxyRefreshed_stores proxyInFlight_eq)
  have i: "lookupMetadata proxyRefreshed ''openai::proxy'' ''m'' = None"
    using g[of proxyInFlight] by (simp add: lookupMetadata_def proxyRefreshed_stores)
  from reachable_proxyRefreshed a b c d h i show ?thesis by simp
qed

subsection \<open>Names that a plain object inherits\<close>

text \<open>
  \<^verbatim>\<open>allModels\<close>, each of its buckets and \<^verbatim>\<open>providerFactories\<close> are plain objects
  used as dictionaries with caller-supplied strings as keys. Three properties of the
  model above are not properties of the program, all from this one cause.

  Claim C6. \<^verbatim>\<open>getModel({provider: "toString", model: "x"})\<close>: line 574 reads the
  inherited function \<^verbatim>\<open>toString\<close>, line 575 finds no \<^verbatim>\<open>x\<close> on it, line 579 finds
  the same inherited function in \<^verbatim>\<open>providerFactories\<close> and calls it, getting a string;
  \<^verbatim>\<open>registerModel\<close> takes the string for the handle, and \<^verbatim>\<open>WeakMap.set\<close> at line 127
  throws a \<^verbatim>\<open>TypeError\<close> on it. \<^verbatim>\<open>getModel({provider: "openai", model: "constructor"})\<close>:
  line 575 reads the inherited \<^verbatim>\<open>Object\<close> function from the bucket and line 577 returns
  it, a value that is no handle and was never registered. The model in both cases takes
  the name for absent (\<open>getModel_case_order\<close>).

  Claims C3 and C10. A refresh in which the Ollama listing holds the one name
  \<^verbatim>\<open>__proto__\<close>: \<^verbatim>\<open>clearProvider\<close> deletes the bucket, line 115 makes a new empty one,
  and line 117 sets that bucket's prototype to the handle instead of adding a key. The
  bucket has no key of its own, so \<^verbatim>\<open>Object.keys\<close> in \<^verbatim>\<open>buildModelsInfo\<close> is empty
  and the summary lists ollama with no model, while the metadata store holds a record for
  \<^verbatim>\<open>ollama::__proto__\<close>. The model stores the name as a key
  (\<open>refresh_replaces_or_keeps\<close>, \<open>buckets_never_empty\<close>).
\<close>

end
